theory Spec2Isabelle
  imports
    Complex_Main
    "HOL-Library.Sublist"
    "HOL-Library.Char_ord"
    "HOL-Library.List_Lexorder"
    "HOL-Library.Multiset"
begin

section \<open>Python values and string operations used by the scripts\<close>

text \<open>
  The two scripts (\<^verbatim>\<open>Scripts/2d-app.py\<close>, \<^verbatim>\<open>Scripts/3d-app.py\<close>) read two CSV files with
  pandas and compute derived tables. Strings are modelled as ASCII character lists. A raise
  of the Python code is a value \<open>Inl e\<close> of a sum type.
\<close>

datatype py_error = IndexError | KeyError | SyntaxError | ValueError | TypeError

text \<open>
  A cell of a text column read by \<^verbatim>\<open>pd.read_csv\<close>: a missing field is the float NaN, a column
  of numbers holds numbers, anything else is a \<^verbatim>\<open>str\<close>.
\<close>

datatype cell = NaN | Num int | Text string

text \<open>The values that the genre column holds after loading.\<close>

datatype pyval = PyList "string list" | PyStr string | PyOther

text \<open>\<^verbatim>\<open>str.lower()\<close> on ASCII text.\<close>

definition lower_char :: "char \<Rightarrow> char" where
  "lower_char c =
     (let n = (of_char c :: nat) in if 65 \<le> n \<and> n \<le> 90 then char_of (n + 32) else c)"

definition lower :: "string \<Rightarrow> string" where
  "lower s = map lower_char s"

text \<open>The ASCII characters for which \<^verbatim>\<open>str.isspace()\<close> holds.\<close>

definition is_space :: "char \<Rightarrow> bool" where
  "is_space c = (let n = (of_char c :: nat) in (9 \<le> n \<and> n \<le> 13) \<or> (28 \<le> n \<and> n \<le> 32))"

text \<open>\<^verbatim>\<open>s.strip(chars)\<close> and \<^verbatim>\<open>s.strip()\<close>.\<close>

definition strip_chars :: "string \<Rightarrow> string \<Rightarrow> string" where
  "strip_chars cs s =
     rev (dropWhile (\<lambda>c. c \<in> set cs) (rev (dropWhile (\<lambda>c. c \<in> set cs) s)))"

definition strip :: "string \<Rightarrow> string" where
  "strip s = rev (dropWhile is_space (rev (dropWhile is_space s)))"

text \<open>\<^verbatim>\<open>s.split(sep)\<close> for a separator of one character: the empty string gives \<^verbatim>\<open>['']\<close>.\<close>

fun split_on :: "char \<Rightarrow> string \<Rightarrow> string list" where
  "split_on sep [] = [[]]"
| "split_on sep (c # cs) =
     (if c = sep then [] # split_on sep cs
      else (case split_on sep cs of [] \<Rightarrow> [[c]] | w # ws \<Rightarrow> (c # w) # ws))"

text \<open>
  \<^verbatim>\<open>s.split()\<close>: the maximal runs of non-space characters, in order. The first argument
  holds the current run, reversed.
\<close>

fun split_run :: "string \<Rightarrow> string \<Rightarrow> string list" where
  "split_run cur [] = (if cur = [] then [] else [rev cur])"
| "split_run cur (c # cs) =
     (if is_space c then (if cur = [] then split_run [] cs else rev cur # split_run [] cs)
      else split_run (c # cur) cs)"

definition split_ws :: "string \<Rightarrow> string list" where
  "split_ws s = split_run [] s"

text \<open>\<^verbatim>\<open>s.replace(c, "")\<close> for a pattern of one character.\<close>

definition remove_char :: "char \<Rightarrow> string \<Rightarrow> string" where
  "remove_char c s = filter (\<lambda>d. d \<noteq> c) s"

section \<open>Genre Classifier\<close>

text \<open>
  \<^verbatim>\<open>self.top_genres\<close> of \<^verbatim>\<open>load_data\<close>: a dict, kept as an association list in the order
  of the source.
\<close>

type_synonym taxonomy = "(string \<times> string list) list"

definition top_genres :: taxonomy where
  "top_genres =
    [(''pop'', [''pop'', ''k-pop'', ''j-pop'', ''cantopop'', ''mandopop'', ''synthpop'',
                ''electropop'']),
     (''rock'', [''rock'', ''hard rock'', ''punk rock'', ''alternative rock'', ''indie rock'',
                 ''classic rock'']),
     (''hip-hop'', [''hip hop'', ''rap'', ''trap'', ''gangsta rap'', ''alternative hip hop'']),
     (''edm'', [''edm'', ''electronic'', ''house'', ''techno'', ''dubstep'', ''trance'']),
     (''r&b'', [''r&b'', ''soul'', ''neo soul'', ''funk'']),
     (''country'', [''country'', ''country pop'', ''outlaw country'']),
     (''jazz'', [''jazz'', ''bebop'', ''swing'', ''cool jazz'', ''fusion'']),
     (''classical'', [''classical'', ''orchestral'', ''chamber music'', ''baroque'',
                      ''romantic'', ''symphony'']),
     (''latin'', [''latin'', ''reggaeton'', ''salsa'', ''bachata'', ''latin pop'']),
     (''reggae'', [''reggae'', ''dub'', ''dancehall''])]"

text \<open>
  \<^verbatim>\<open>map_to_top_genres\<close>. The first two branches compute \<^verbatim>\<open>genre_list\<close>, the third returns
  the empty list at once.
\<close>

definition genre_list :: "pyval \<Rightarrow> string list option" where
  "genre_list v =
     (case v of
        PyStr s \<Rightarrow>
          Some (map (\<lambda>g. strip_chars [CHR 0x27] (strip g))
                    (split_on CHR '','' (strip_chars ''[]'' s)))
      | PyList gs \<Rightarrow> Some gs
      | PyOther \<Rightarrow> None)"

text \<open>\<^verbatim>\<open>any(sub in genre.lower() for sub in subgenres)\<close>\<close>

definition any_sub :: "string list \<Rightarrow> string \<Rightarrow> bool" where
  "any_sub subgenres genre = list_ex (\<lambda>sub. sublist sub (lower genre)) subgenres"

text \<open>
  The two nested loops that fill \<^verbatim>\<open>mapped_genres\<close>. The Python set is a list without
  repetition (\<^const>\<open>List.insert\<close> adds an element only when it is absent); the order in which
  \<^verbatim>\<open>list(mapped_genres)\<close> enumerates the set is not fixed by Python, and nothing below
  depends on it.
\<close>

definition add_genre :: "taxonomy \<Rightarrow> string \<Rightarrow> string list \<Rightarrow> string list" where
  "add_genre tg genre mapped =
     fold (\<lambda>(top_genre, subgenres) acc.
             if any_sub subgenres genre then List.insert top_genre acc else acc) tg mapped"

definition map_to_top_genres :: "taxonomy \<Rightarrow> pyval \<Rightarrow> string list" where
  "map_to_top_genres tg v =
     (case genre_list v of
        None \<Rightarrow> []
      | Some gl \<Rightarrow> fold (add_genre tg) gl [])"

text \<open>The raw genre tags that \<^verbatim>\<open>map_to_top_genres\<close> iterates over (\<^verbatim>\<open>genre_list\<close>).\<close>

definition raw_tags :: "pyval \<Rightarrow> string list" where
  "raw_tags v = (case genre_list v of None \<Rightarrow> [] | Some gl \<Rightarrow> gl)"

section \<open>Record Loader\<close>

text \<open>
  \<^verbatim>\<open>eval(x)\<close> in \<^verbatim>\<open>load_data\<close> and \<^verbatim>\<open>ast.literal_eval(chart_hits_str)\<close> in
  \<^verbatim>\<open>expand_chart_hits\<close> read the text that pandas wrote for a Python list of strings.
  The model covers this fragment of Python's expression syntax: an opening bracket, string
  literals in single or double quotes made of printable ASCII characters without backslash,
  separated by commas, blanks between the tokens, a closing bracket at the end of the text.
  On this fragment both functions agree. The result is \<open>None\<close> for a text outside the
  fragment, about which the model says nothing; \<open>Some (Inl SyntaxError)\<close> where the text
  ends inside the open bracket or inside a string literal, and for the empty text;
  \<open>Some (Inr xs)\<close> for a list.
\<close>

datatype pstate = ExpectItem | ExpectSep | InStr char string

definition plain_char :: "char \<Rightarrow> bool" where
  "plain_char c = (let n = (of_char c :: nat) in 32 \<le> n \<and> n \<le> 126 \<and> n \<noteq> 92)"

definition is_quote :: "char \<Rightarrow> bool" where
  "is_quote c = (c = CHR 0x27 \<or> c = CHR 0x22)"

fun list_items :: "pstate \<Rightarrow> string list \<Rightarrow> string \<Rightarrow> (py_error + string list) option" where
  "list_items st acc [] = Some (Inl SyntaxError)"
| "list_items (InStr q cur) acc (c # cs) =
     (if c = q then list_items ExpectSep (acc @ [cur]) cs
      else if plain_char c then list_items (InStr q (cur @ [c])) acc cs
      else None)"
| "list_items ExpectItem acc (c # cs) =
     (if c = CHR '' '' then list_items ExpectItem acc cs
      else if c = CHR '']'' then (if cs = [] then Some (Inr acc) else None)
      else if is_quote c then list_items (InStr c []) acc cs
      else None)"
| "list_items ExpectSep acc (c # cs) =
     (if c = CHR '' '' then list_items ExpectSep acc cs
      else if c = CHR '']'' then (if cs = [] then Some (Inr acc) else None)
      else if c = CHR '','' then list_items ExpectItem acc cs
      else None)"

definition py_eval :: "string \<Rightarrow> (py_error + string list) option" where
  "py_eval s =
     (case s of
        [] \<Rightarrow> Some (Inl SyntaxError)
      | c # cs \<Rightarrow> if c = CHR ''['' then list_items ExpectItem [] cs else None)"

text \<open>
  The text that Python writes for a list of strings (\<^verbatim>\<open>str(xs)\<close>, as pandas stores it in
  the CSV file): single quotes, or double quotes for a string that holds a single quote and
  no double quote.
\<close>

definition repr_str :: "string \<Rightarrow> string" where
  "repr_str s =
     (if CHR 0x27 \<in> set s \<and> CHR 0x22 \<notin> set s then [CHR 0x22] @ s @ [CHR 0x22]
      else [CHR 0x27] @ s @ [CHR 0x27])"

fun join_items :: "string list \<Rightarrow> string" where
  "join_items [] = []"
| "join_items [x] = repr_str x"
| "join_items (x # y # ys) = repr_str x @ '', '' @ join_items (y # ys)"

definition py_repr :: "string list \<Rightarrow> string" where
  "py_repr xs = ''['' @ join_items xs @ '']''"

text \<open>The strings that \<^const>\<open>repr_str\<close> writes without an escape sequence.\<close>

definition plain_str :: "string \<Rightarrow> bool" where
  "plain_str s = ((\<forall>c \<in> set s. plain_char c) \<and> \<not> (CHR 0x27 \<in> set s \<and> CHR 0x22 \<in> set s))"

text \<open>
  A row of \<^verbatim>\<open>nodes.csv\<close> as \<^verbatim>\<open>pd.read_csv\<close> returns it, and after \<^verbatim>\<open>load_data\<close> has
  replaced the \<^verbatim>\<open>genres\<close> column.
\<close>

record csv_node =
  csv_spotify_id :: string
  csv_name :: string
  csv_followers :: int
  csv_popularity :: int
  csv_genres :: cell
  csv_chart_hits :: cell

record node =
  spotify_id :: string
  name :: string
  followers :: int
  popularity :: int
  genres :: pyval
  chart_hits :: cell

text \<open>\<^verbatim>\<open>lambda x: eval(x) if isinstance(x, str) else []\<close>\<close>

definition load_genres :: "cell \<Rightarrow> (py_error + pyval) option" where
  "load_genres x =
     (case x of
        Text s \<Rightarrow>
          (case py_eval s of
             None \<Rightarrow> None
           | Some (Inl e) \<Rightarrow> Some (Inl e)
           | Some (Inr xs) \<Rightarrow> Some (Inr (PyList xs)))
      | _ \<Rightarrow> Some (Inr (PyList [])))"

text \<open>
  \<^verbatim>\<open>Series.apply\<close> calls the function row by row; the first raise leaves \<^verbatim>\<open>load_data\<close>.
\<close>

fun load_data :: "csv_node list \<Rightarrow> (py_error + node list) option" where
  "load_data [] = Some (Inr [])"
| "load_data (r # rs) =
     (case load_genres (csv_genres r) of
        None \<Rightarrow> None
      | Some (Inl e) \<Rightarrow> Some (Inl e)
      | Some (Inr g) \<Rightarrow>
          (case load_data rs of
             None \<Rightarrow> None
           | Some (Inl e) \<Rightarrow> Some (Inl e)
           | Some (Inr ns) \<Rightarrow>
               Some (Inr (\<lparr>spotify_id = csv_spotify_id r, name = csv_name r,
                            followers = csv_followers r, popularity = csv_popularity r,
                            genres = g, chart_hits = csv_chart_hits r\<rparr> # ns))))"

section \<open>Chart-Hit Expander\<close>

text \<open>
  \<^verbatim>\<open>int(hit_number)\<close> on an ASCII string without surrounding blanks (it comes from
  \<^verbatim>\<open>split()\<close>): an optional sign, then decimal digits, single underscores allowed between
  digits. Anything else raises \<^verbatim>\<open>ValueError\<close>. Python integers are unbounded, and so are
  the values here; the bound that newer Python versions put on the number of digits is left
  out.
\<close>

definition is_digit :: "char \<Rightarrow> bool" where
  "is_digit c = (let n = (of_char c :: nat) in 48 \<le> n \<and> n \<le> 57)"

definition digit_val :: "char \<Rightarrow> int" where
  "digit_val c = of_char c - 48"

fun int_digits :: "int \<Rightarrow> string \<Rightarrow> int option" where
  "int_digits acc [] = None"
| "int_digits acc [c] = (if is_digit c then Some (10 * acc + digit_val c) else None)"
| "int_digits acc (c # d # cs) =
     (if is_digit c then
        (if d = CHR ''_'' then int_digits (10 * acc + digit_val c) cs
         else int_digits (10 * acc + digit_val c) (d # cs))
      else None)"

definition py_int :: "string \<Rightarrow> py_error + int" where
  "py_int s =
     (case s of
        [] \<Rightarrow> Inl ValueError
      | c # cs \<Rightarrow>
          if c = CHR ''-'' then
            (case int_digits 0 cs of None \<Rightarrow> Inl ValueError | Some n \<Rightarrow> Inr (- n))
          else if c = CHR ''+'' then
            (case int_digits 0 cs of None \<Rightarrow> Inl ValueError | Some n \<Rightarrow> Inr n)
          else
            (case int_digits 0 s of None \<Rightarrow> Inl ValueError | Some n \<Rightarrow> Inr n))"

record hit =
  country_code :: string
  hit_number :: int

text \<open>
  The body of the loop over \<^verbatim>\<open>chart_hits\<close>: unpacking the result of \<^verbatim>\<open>split()\<close> into
  two names raises \<^verbatim>\<open>ValueError\<close> unless there are exactly two parts.
\<close>

definition parse_entry :: "string \<Rightarrow> py_error + hit" where
  "parse_entry entry =
     (case split_ws (remove_char CHR '')'' (remove_char CHR ''('' entry)) of
        [country, hit_no] \<Rightarrow>
          (case py_int hit_no of
             Inl e \<Rightarrow> Inl e
           | Inr n \<Rightarrow> Inr \<lparr>country_code = country, hit_number = n\<rparr>)
      | _ \<Rightarrow> Inl ValueError)"

fun parse_entries :: "string list \<Rightarrow> py_error + hit list" where
  "parse_entries [] = Inr []"
| "parse_entries (entry # rest) =
     (case parse_entry entry of
        Inl e \<Rightarrow> Inl e
      | Inr h \<Rightarrow> (case parse_entries rest of Inl e \<Rightarrow> Inl e | Inr hs \<Rightarrow> Inr (h # hs)))"

text \<open>
  \<^verbatim>\<open>expand_chart_hits\<close>. The second component is what the function prints: one line per
  caught exception. \<^verbatim>\<open>ast.literal_eval\<close> of a value that is not a string raises
  \<^verbatim>\<open>ValueError\<close>, which the handler catches like any other.
\<close>

definition expand_chart_hits :: "cell \<Rightarrow> (hit list \<times> py_error list) option" where
  "expand_chart_hits x =
     (case x of
        NaN \<Rightarrow> Some ([], [])
      | Num n \<Rightarrow> Some ([], [ValueError])
      | Text s \<Rightarrow>
          if s = ''[]'' then Some ([], [])
          else
            (case py_eval s of
               None \<Rightarrow> None
             | Some (Inl e) \<Rightarrow> Some ([], [e])
             | Some (Inr entries) \<Rightarrow>
                 (case parse_entries entries of
                    Inl e \<Rightarrow> Some ([], [e])
                  | Inr expanded \<Rightarrow> Some (expanded, []))))"

section \<open>Analytical Dataset Builder\<close>

text \<open>
  \<^verbatim>\<open>prepare_cleaned_data\<close>. A data frame is the list of its rows; a column that a stage
  adds is a field of an extended record. Column values that pandas holds as floats
  (quantiles, means) are exact rationals here.
\<close>

text \<open>
  \<^verbatim>\<open>df.nlargest(n, col)\<close>: the rows with the \<open>n\<close> largest values, largest first, rows of
  equal value in their order of appearance. \<^verbatim>\<open>df.sort_values(by=col, ascending=False)\<close>
  orders the same way, except that pandas does not fix the order of rows of equal value; the
  model keeps their order of appearance.
\<close>

definition nlargest :: "nat \<Rightarrow> ('a \<Rightarrow> int) \<Rightarrow> 'a list \<Rightarrow> 'a list" where
  "nlargest n col df = take n (sort_key (\<lambda>r. - col r) df)"

definition sort_values_desc :: "('a \<Rightarrow> int) \<Rightarrow> 'a list \<Rightarrow> 'a list" where
  "sort_values_desc col df = sort_key (\<lambda>r. - col r) df"

record genre_row = node +
  cleaned_genres :: "string list"
  genre_count :: nat

text \<open>Lines 84 to 86: the genre mapping, the filter on its length, the count.\<close>

definition apply_genre_mapping :: "taxonomy \<Rightarrow> node list \<Rightarrow> genre_row list" where
  "apply_genre_mapping tg df =
     map (\<lambda>(r, cg). node.extend r (genre_row.fields cg (length cg)))
       (filter (\<lambda>(r, cg). length cg > 0)
          (map (\<lambda>r. (r, map_to_top_genres tg (genres r))) df))"

record artist_hit = hit +
  hit_spotify_id :: string

text \<open>
  Lines 89 to 97: the loop over the rows that fills \<^verbatim>\<open>expanded_hits\<close>; the second
  component collects what \<^verbatim>\<open>expand_chart_hits\<close> printed.
\<close>

fun collect_hits :: "genre_row list \<Rightarrow> (artist_hit list \<times> py_error list) option" where
  "collect_hits [] = Some ([], [])"
| "collect_hits (row # rows) =
     (case expand_chart_hits (chart_hits row) of
        None \<Rightarrow> None
      | Some (chart_data, printed) \<Rightarrow>
          (case collect_hits rows of
             None \<Rightarrow> None
           | Some (expanded, printed') \<Rightarrow>
               Some (map (\<lambda>h. hit.extend h (artist_hit.fields (spotify_id row))) chart_data
                       @ expanded,
                     printed @ printed')))"

text \<open>
  Line 99: \<^verbatim>\<open>pd.DataFrame(expanded_hits)\<close>. The column \<^verbatim>\<open>hit_number\<close> is a column of
  64-bit signed integers when every hit number fits that type. A hit number outside that
  range gives the column another type; the model says nothing about that case (\<open>None\<close>).
\<close>

definition in_int64 :: "int \<Rightarrow> bool" where
  "in_int64 x = (- (2 ^ 63) \<le> x \<and> x < 2 ^ 63)"

definition hits_frame :: "artist_hit list \<Rightarrow> artist_hit list option" where
  "hits_frame expanded_hits =
     (if list_all (\<lambda>h. in_int64 (hit_number h)) expanded_hits then Some expanded_hits
      else None)"

text \<open>
  Lines 102 to 105. \<^verbatim>\<open>pd.DataFrame([])\<close> has no columns, so that \<^verbatim>\<open>groupby('spotify_id')\<close>
  raises \<^verbatim>\<open>KeyError\<close> when no hit was collected. Otherwise there is one row per
  identifier, in sorted order: the sum of the hit numbers and the number of distinct country
  codes. The sum is taken in 64-bit signed integers and wraps around: it is the sum of the
  numbers reduced modulo \<open>2\<^sup>6\<^sup>4\<close> into the range of the type.
\<close>

definition int64_wrap :: "int \<Rightarrow> int" where
  "int64_wrap x = (x + 2 ^ 63) mod 2 ^ 64 - 2 ^ 63"

definition total_hits_of :: "'a hit_scheme list \<Rightarrow> int" where
  "total_hits_of hs = int64_wrap (sum_list (map hit_number hs))"

definition num_countries_of :: "'a hit_scheme list \<Rightarrow> nat" where
  "num_countries_of hs = length (remdups (map country_code hs))"

definition grouped_hits :: "artist_hit list \<Rightarrow> py_error + (string \<times> int \<times> nat) list" where
  "grouped_hits expanded =
     (if expanded = [] then Inl KeyError
      else Inr (map (\<lambda>sid. let g = filter (\<lambda>h. hit_spotify_id h = sid) expanded
                            in (sid, total_hits_of g, num_countries_of g))
                    (sort (remdups (map hit_spotify_id expanded)))))"

record hits_row = genre_row +
  total_hits :: int
  num_countries :: nat

text \<open>
  The value of a 64-bit signed integer after its conversion to a 64-bit float: exact up to
  magnitude \<open>2\<^sup>5\<^sup>3\<close>, beyond that rounded to 53 significant bits, a tie going to the
  even significand. \<open>bit_length\<close> is the number of binary digits of a positive integer.
\<close>

function bit_length :: "int \<Rightarrow> nat" where
  "bit_length n = (if n \<le> 0 then 0 else Suc (bit_length (n div 2)))"
  by pat_completeness auto
termination
  by (relation "measure nat") auto

definition float64_of_int :: "int \<Rightarrow> int" where
  "float64_of_int v =
     (if \<bar>v\<bar> \<le> 2 ^ 53 then v
      else (let a = \<bar>v\<bar>;
                ulp = 2 ^ (bit_length a - 53);
                q = a div ulp;
                rest = a mod ulp;
                q' = (if 2 * rest > ulp \<or> (2 * rest = ulp \<and> odd q) then q + 1 else q)
            in sgn v * q' * ulp))"

text \<open>
  Lines 108 and 109: the left merge on \<^verbatim>\<open>spotify_id\<close> gives a row without a group NaN in
  both new columns, and \<^verbatim>\<open>dropna\<close> removes it. When there is such a row, the two new
  columns are columns of floats and the sums are converted; otherwise they stay integers.
  The counts of countries, bounded by the number of hits, are not changed by the conversion.
\<close>

definition merge_hits ::
    "genre_row list \<Rightarrow> (string \<times> int \<times> nat) list \<Rightarrow> (genre_row \<times> (int \<times> nat) option) list" where
  "merge_hits df grouped =
     (let unmatched = list_ex (\<lambda>r. map_of grouped (spotify_id r) = None) df
      in map (\<lambda>r. (r, case map_of grouped (spotify_id r) of
                          None \<Rightarrow> None
                        | Some (t, n) \<Rightarrow> Some (if unmatched then float64_of_int t else t, n)))
             df)"

definition dropna_hits :: "(genre_row \<times> (int \<times> nat) option) list \<Rightarrow> hits_row list" where
  "dropna_hits merged =
     concat (map (\<lambda>(r, agg). case agg of
                                 None \<Rightarrow> []
                               | Some (t, n) \<Rightarrow> [genre_row.extend r (hits_row.fields t n)])
                 merged)"

text \<open>
  Lines 113 to 122. \<^verbatim>\<open>Series.quantile(q)\<close> interpolates linearly between the two order
  statistics around position \<open>q (n - 1)\<close>. On an empty frame the quantiles are NaN and
  the filter keeps nothing of nothing.
\<close>

definition quantile :: "rat \<Rightarrow> rat list \<Rightarrow> rat" where
  "quantile q xs =
     (let s = sort xs;
          pos = of_nat (length xs - 1) * q;
          lo = nat \<lfloor>pos\<rfloor>;
          hi = nat \<lceil>pos\<rceil>
      in s ! lo + (s ! hi - s ! lo) * (pos - of_nat lo))"

definition column :: "('a \<Rightarrow> int) \<Rightarrow> 'a list \<Rightarrow> rat list" where
  "column col df = map (\<lambda>r. of_int (col r)) df"

definition lower_bound :: "('a \<Rightarrow> int) \<Rightarrow> 'a list \<Rightarrow> rat" where
  "lower_bound col df =
     (let Q1 = quantile (25 / 1000) (column col df);
          Q3 = quantile (975 / 1000) (column col df);
          IQR = Q3 - Q1
      in Q1 - (3 / 2) * IQR)"

definition upper_bound :: "('a \<Rightarrow> int) \<Rightarrow> 'a list \<Rightarrow> rat" where
  "upper_bound col df =
     (let Q1 = quantile (25 / 1000) (column col df);
          Q3 = quantile (975 / 1000) (column col df);
          IQR = Q3 - Q1
      in Q3 + (3 / 2) * IQR)"

definition remove_outliers :: "('a \<Rightarrow> int) \<Rightarrow> 'a list \<Rightarrow> 'a list" where
  "remove_outliers col df =
     (if df = [] then []
      else filter (\<lambda>r. of_int (col r) \<ge> lower_bound col df \<and>
                        of_int (col r) \<le> upper_bound col df) df)"

text \<open>The loop over the two columns, \<^verbatim>\<open>followers\<close> first.\<close>

definition remove_all_outliers :: "hits_row list \<Rightarrow> hits_row list" where
  "remove_all_outliers df = remove_outliers popularity (remove_outliers followers df)"

text \<open>
  Lines 125 and 126: \<^verbatim>\<open>value_counts\<close> of the two identifier columns put one after the other,
  most frequent first.
\<close>

definition value_counts :: "string list \<Rightarrow> (string \<times> nat) list" where
  "value_counts xs =
     sort_key (\<lambda>(k, c). - int c) (map (\<lambda>k. (k, count_list xs k)) (remdups xs))"

definition artist_collabs :: "(string \<times> string) list \<Rightarrow> (string \<times> nat) list" where
  "artist_collabs edges_df = value_counts (map fst edges_df @ map snd edges_df)"

record final_row = hits_row +
  collab_count :: nat

text \<open>Lines 129 and 130: the left merge and \<^verbatim>\<open>fillna(0)\<close>.\<close>

definition merge_collabs :: "hits_row list \<Rightarrow> (string \<times> nat) list \<Rightarrow> final_row list" where
  "merge_collabs df collabs =
     map (\<lambda>r. hits_row.extend r
                (final_row.fields (case map_of collabs (spotify_id r) of
                                     None \<Rightarrow> 0
                                   | Some c \<Rightarrow> c))) df"

text \<open>
  Lines 133 to 138. \<^verbatim>\<open>Series.std()\<close> is the sample standard deviation (divisor \<open>n - 1\<close>):
  NaN on fewer than two rows, and then no row passes the comparisons. With \<open>s\<close> the
  standard deviation and \<open>m\<close> the mean, \<open>m - 2 s \<le> c \<and> c \<le> m + 2 s\<close> is written without
  the square root as \<open>(c - m)\<^sup>2 \<le> 4 s\<^sup>2\<close>.
\<close>

definition mean :: "rat list \<Rightarrow> rat" where
  "mean xs = sum_list xs / of_nat (length xs)"

definition variance :: "rat list \<Rightarrow> rat" where
  "variance xs = sum_list (map (\<lambda>x. (x - mean xs)\<^sup>2) xs) / of_nat (length xs - 1)"

definition remove_collab_outliers :: "final_row list \<Rightarrow> final_row list" where
  "remove_collab_outliers df =
     (if length df < 2 then []
      else (let cs = map (\<lambda>r. of_nat (collab_count r)) df;
                mean_collabs = mean cs;
                var_collabs = variance cs
            in filter (\<lambda>r. (of_nat (collab_count r) - mean_collabs)\<^sup>2 \<le> 4 * var_collabs) df))"

text \<open>The tables of \<^verbatim>\<open>prepare_cleaned_data\<close> after each of its stages.\<close>

record stages =
  stage1 :: "node list"
  stage2 :: "genre_row list"
  stage3 :: "hits_row list"
  stage4 :: "hits_row list"
  stage5 :: "hits_row list"
  stage6 :: "final_row list"
  stage7 :: "final_row list"
  printed_log :: "py_error list"

definition pipeline ::
    "taxonomy \<Rightarrow> (string \<times> string) list \<Rightarrow> node list \<Rightarrow> (py_error + stages) option" where
  "pipeline tg edges_df nodes_df =
     (let s1 = nlargest 100 popularity nodes_df;
          s2 = apply_genre_mapping tg s1
      in case collect_hits s2 of
           None \<Rightarrow> None
         | Some (expanded, printed) \<Rightarrow>
             (case hits_frame expanded of
                None \<Rightarrow> None
              | Some expanded_hits_df \<Rightarrow>
                  (case grouped_hits expanded_hits_df of
                     Inl e \<Rightarrow> Some (Inl e)
                   | Inr grouped \<Rightarrow>
                       (let s3 = dropna_hits (merge_hits s2 grouped);
                            s4 = take 100 (sort_values_desc popularity s3);
                            s5 = remove_all_outliers s4;
                            s6 = merge_collabs s5 (artist_collabs edges_df);
                            s7 = remove_collab_outliers s6
                        in Some (Inr \<lparr>stage1 = s1, stage2 = s2, stage3 = s3, stage4 = s4,
                                       stage5 = s5, stage6 = s6, stage7 = s7,
                                       printed_log = printed\<rparr>)))))"

definition prepare_cleaned_data ::
    "taxonomy \<Rightarrow> (string \<times> string) list \<Rightarrow> node list \<Rightarrow> (py_error + final_row list) option" where
  "prepare_cleaned_data tg edges_df nodes_df =
     (case pipeline tg edges_df nodes_df of
        None \<Rightarrow> None
      | Some (Inl e) \<Rightarrow> Some (Inl e)
      | Some (Inr st) \<Rightarrow> Some (Inr (stage7 st)))"

text \<open>\<^verbatim>\<open>genre_collaboration_stats\<close>: one row per key of \<^verbatim>\<open>self.top_genres\<close>.\<close>

definition genre_collaboration_stats :: "taxonomy \<Rightarrow> final_row list \<Rightarrow> (string \<times> rat) list" where
  "genre_collaboration_stats tg top_artists_df =
     map (\<lambda>genre.
            let genre_artists = filter (\<lambda>r. genre \<in> set (cleaned_genres r)) top_artists_df;
                avg_collabs = (if genre_artists \<noteq> []
                               then mean (map (\<lambda>r. of_nat (collab_count r)) genre_artists)
                               else 0)
            in (genre, avg_collabs))
         (map fst tg)"

section \<open>Graph Engine\<close>

text \<open>
  \<^verbatim>\<open>nx.from_pandas_edgelist\<close> calls \<^verbatim>\<open>Graph.add_edge\<close> on every row. A networkx
  \<^verbatim>\<open>Graph\<close> keeps, for every node, the dict of its neighbours; both dicts keep the order of
  insertion. \<^verbatim>\<open>add_edge(u, v)\<close> adds the two nodes when they are new and enters each into
  the other's neighbours.
\<close>

type_synonym graph = "(string \<times> string list) list"

definition add_node :: "string \<Rightarrow> graph \<Rightarrow> graph" where
  "add_node u g = (if u \<in> set (map fst g) then g else g @ [(u, [])])"

definition add_nbr :: "string \<Rightarrow> string \<Rightarrow> graph \<Rightarrow> graph" where
  "add_nbr u v g =
     map (\<lambda>(n, nbrs). if n = u then (n, if v \<in> set nbrs then nbrs else nbrs @ [v])
                       else (n, nbrs)) g"

definition add_edge :: "string \<Rightarrow> string \<Rightarrow> graph \<Rightarrow> graph" where
  "add_edge u v g = add_nbr v u (add_nbr u v (add_node v (add_node u g)))"

definition from_pandas_edgelist :: "(string \<times> string) list \<Rightarrow> graph" where
  "from_pandas_edgelist edges_df = fold (\<lambda>(u, v) g. add_edge u v g) edges_df []"

text \<open>
  \<^verbatim>\<open>G.degree()\<close>: the number of entries of the node's neighbour dict, plus one when the
  node is its own neighbour (networkx counts a self-loop twice).
\<close>

definition node_degree :: "string \<Rightarrow> string list \<Rightarrow> nat" where
  "node_degree n nbrs = length nbrs + (if n \<in> set nbrs then 1 else 0)"

definition degrees :: "graph \<Rightarrow> (string \<times> nat) list" where
  "degrees g = map (\<lambda>(n, nbrs). (n, node_degree n nbrs)) g"

definition setup_network :: "(string \<times> string) list \<Rightarrow> graph \<times> (string \<times> nat) list" where
  "setup_network edges_df = (let G = from_pandas_edgelist edges_df in (G, degrees G))"

text \<open>\<^verbatim>\<open>G.edges()\<close>: every edge once, from the endpoint that was added first.\<close>

fun edges_from :: "string list \<Rightarrow> graph \<Rightarrow> (string \<times> string) list" where
  "edges_from seen [] = []"
| "edges_from seen ((n, nbrs) # g) =
     map (\<lambda>m. (n, m)) (filter (\<lambda>m. m \<notin> set seen) nbrs) @ edges_from (n # seen) g"

definition graph_edges :: "graph \<Rightarrow> (string \<times> string) list" where
  "graph_edges g = edges_from [] g"

section \<open>Element building\<close>

text \<open>
  \<^verbatim>\<open>self.nodes_df[self.nodes_df['spotify_id'] == artist_id].iloc[0]\<close>: the first matching
  row; \<^verbatim>\<open>iloc[0]\<close> on a frame without rows raises \<^verbatim>\<open>IndexError\<close>.
\<close>

definition artist_info :: "node list \<Rightarrow> string \<Rightarrow> py_error + node" where
  "artist_info nodes_df artist_id =
     (case filter (\<lambda>r. spotify_id r = artist_id) nodes_df of
        [] \<Rightarrow> Inl IndexError
      | r # _ \<Rightarrow> Inr r)"

text \<open>\<^verbatim>\<open>self.degrees[artist_id]\<close>: a missing key raises \<^verbatim>\<open>KeyError\<close>.\<close>

definition degree_of :: "(string \<times> nat) list \<Rightarrow> string \<Rightarrow> py_error + nat" where
  "degree_of degs n = (case map_of degs n of None \<Rightarrow> Inl KeyError | Some d \<Rightarrow> Inr d)"

datatype element =
    NodeElement (el_id: string) (el_label: string) (el_size: nat) (el_followers: int)
      (el_popularity: int) (el_genres: pyval) (el_name: string)
  | EdgeElement (el_source: string) (el_target: string)

text \<open>The first loop of \<^verbatim>\<open>create_network_elements\<close> (2d-app.py, lines 157 to 169).\<close>

fun node_elements ::
    "node list \<Rightarrow> (string \<times> nat) list \<Rightarrow> string list \<Rightarrow> py_error + element list" where
  "node_elements nodes_df degs [] = Inr []"
| "node_elements nodes_df degs (artist_id # rest) =
     (case artist_info nodes_df artist_id of
        Inl e \<Rightarrow> Inl e
      | Inr info \<Rightarrow>
          (case degree_of degs artist_id of
             Inl e \<Rightarrow> Inl e
           | Inr d \<Rightarrow>
               (case node_elements nodes_df degs rest of
                  Inl e \<Rightarrow> Inl e
                | Inr els \<Rightarrow>
                    Inr (NodeElement artist_id (name info) d (followers info)
                           (popularity info) (genres info) (name info) # els))))"

definition create_network_elements ::
    "node list \<Rightarrow> graph \<Rightarrow> (string \<times> nat) list \<Rightarrow> string list \<Rightarrow> py_error + element list" where
  "create_network_elements nodes_df G degs artist_ids =
     (case node_elements nodes_df degs artist_ids of
        Inl e \<Rightarrow> Inl e
      | Inr els \<Rightarrow>
          Inr (els @ map (\<lambda>(a, b). EdgeElement a b)
                        (filter (\<lambda>(a, b). a \<in> set artist_ids \<and> b \<in> set artist_ids)
                                (graph_edges G))))"

text \<open>
  The node loop of \<^verbatim>\<open>create_3d_network\<close> (3d-app.py, lines 63 to 74), over the nodes of
  \<^verbatim>\<open>self.G.subgraph(artist_ids)\<close>: the nodes of the graph that are among \<^verbatim>\<open>artist_ids\<close>.
  Per node it records the three values shown in the hover text, the degree whose square root
  is the marker size, and the colour. The coordinates, which come from a randomised layout,
  are left out.
\<close>

record marker =
  marker_text :: "string \<times> int \<times> int"
  marker_degree :: nat
  marker_color :: int

fun node_markers ::
    "node list \<Rightarrow> (string \<times> nat) list \<Rightarrow> string list \<Rightarrow> py_error + marker list" where
  "node_markers nodes_df degs [] = Inr []"
| "node_markers nodes_df degs (n # rest) =
     (case artist_info nodes_df n of
        Inl e \<Rightarrow> Inl e
      | Inr info \<Rightarrow>
          (case degree_of degs n of
             Inl e \<Rightarrow> Inl e
           | Inr d \<Rightarrow>
               (case node_markers nodes_df degs rest of
                  Inl e \<Rightarrow> Inl e
                | Inr ms \<Rightarrow>
                    Inr (\<lparr>marker_text = (name info, followers info, popularity info),
                          marker_degree = d, marker_color = popularity info\<rparr> # ms))))"

definition create_3d_network ::
    "node list \<Rightarrow> graph \<Rightarrow> (string \<times> nat) list \<Rightarrow> string list \<Rightarrow> py_error + marker list" where
  "create_3d_network nodes_df G degs artist_ids =
     node_markers nodes_df degs (filter (\<lambda>n. n \<in> set artist_ids) (map fst G))"

section \<open>Example data\<close>

text \<open>
  A row of the node table with the given identifier, popularity, tags and chart hits, and
  a row of the final dataset with the given identifier, popularity, tags and count.
\<close>

definition example_node :: "string \<Rightarrow> int \<Rightarrow> string list \<Rightarrow> cell \<Rightarrow> node" where
  "example_node sid pop gs hits =
     \<lparr>spotify_id = sid, name = sid, followers = 1000, popularity = pop, genres = PyList gs,
      chart_hits = hits\<rparr>"

definition example_row :: "string \<Rightarrow> int \<Rightarrow> string list \<Rightarrow> nat \<Rightarrow> final_row" where
  "example_row sid pop gs c =
     \<lparr>spotify_id = sid, name = sid, followers = 1000, popularity = pop, genres = PyList gs,
      chart_hits = Text ''['us (1)']'', cleaned_genres = map_to_top_genres top_genres (PyList gs),
      genre_count = length (map_to_top_genres top_genres (PyList gs)),
      total_hits = 1, num_countries = 1, collab_count = c\<rparr>"

section \<open>The collaboration count in the words of the specification\<close>

text \<open>
  The specification counts, for an artist, the appearances of its identifier in the
  collaboration edges, where an edge is an unordered pair and repeated entries of a pair
  count once, both endpoints of an edge being counted. \<open>collapsed_edges\<close> orients every
  pair and removes the repetitions.
\<close>

definition collapsed_edges :: "(string \<times> string) list \<Rightarrow> (string \<times> string) list" where
  "collapsed_edges edges_df = remdups (map (\<lambda>(u, v). if u \<le> v then (u, v) else (v, u)) edges_df)"

definition spec_collab_count :: "(string \<times> string) list \<Rightarrow> string \<Rightarrow> nat" where
  "spec_collab_count edges_df a =
     count_list (map fst (collapsed_edges edges_df) @ map snd (collapsed_edges edges_df)) a"

section \<open>Neighbours in the words of the specification\<close>

text \<open>
  The distinct neighbouring nodes of a node: the other endpoints of the rows of the edge
  table that hold the node, each once.
\<close>

definition neighbours :: "(string \<times> string) list \<Rightarrow> string \<Rightarrow> string list" where
  "neighbours edges_df n =
     remdups (map snd (filter (\<lambda>e. fst e = n) edges_df) @
              map fst (filter (\<lambda>e. snd e = n) edges_df))"

section \<open>Notions used to state the properties of the graph\<close>

text \<open>
  \<open>enter\<close> is the entry of a neighbour into a neighbour list, as \<open>add_nbr\<close> does it;
  \<open>nbrs_or_empty\<close> reads the neighbour list of a node, empty for a node the graph does
  not have; \<open>adjacency_of g es\<close> says that the graph \<open>g\<close> has the endpoints of the edge
  rows \<open>es\<close> as nodes and, per node, the other endpoints of its rows as neighbours, each
  once.
\<close>

definition enter :: "string \<Rightarrow> string list \<Rightarrow> string list" where
  "enter v ns = (if v \<in> set ns then ns else ns @ [v])"

definition nbrs_or_empty :: "graph \<Rightarrow> string \<Rightarrow> string list" where
  "nbrs_or_empty g n = (case map_of g n of None \<Rightarrow> [] | Some ns \<Rightarrow> ns)"

definition adjacency_of :: "graph \<Rightarrow> (string \<times> string) list \<Rightarrow> bool" where
  "adjacency_of g es \<longleftrightarrow>
     (\<forall>n. (map_of g n = None \<longleftrightarrow> n \<notin> fst ` set es \<union> snd ` set es) \<and>
          (\<forall>ns. map_of g n = Some ns \<longrightarrow>
                 distinct ns \<and> set ns = {m. (n, m) \<in> set es \<or> (m, n) \<in> set es}))"

section \<open>Properties of the Genre Classifier\<close>

lemma set_add_genre:
  "set (add_genre tg genre mapped) =
     set mapped \<union> {top. \<exists>subs. (top, subs) \<in> set tg \<and> any_sub subs genre}"
  unfolding add_genre_def
proof (induction tg arbitrary: mapped)
  case Nil
  show ?case by simp
next
  case (Cons p tg)
  obtain t s where p: "p = (t, s)" by (cases p)
  show ?case unfolding p by (auto simp: Cons.IH)
qed

lemma set_fold_add_genre:
  "set (fold (add_genre tg) gl mapped) =
     set mapped \<union> {top. \<exists>subs genre. (top, subs) \<in> set tg \<and> genre \<in> set gl \<and> any_sub subs genre}"
proof (induction gl arbitrary: mapped)
  case Nil
  show ?case by simp
next
  case (Cons g gl)
  show ?case by (auto simp: Cons.IH set_add_genre)
qed



lemma set_map_to_top_genres_list:
  "set (map_to_top_genres tg (PyList tags)) =
     {top. \<exists>subs genre. (top, subs) \<in> set tg \<and> genre \<in> set tags \<and> any_sub subs genre}"
  by (simp add: map_to_top_genres_def genre_list_def set_fold_add_genre)

lemma top_genres_keys:
  "map fst top_genres =
     [''pop'', ''rock'', ''hip-hop'', ''edm'', ''r&b'', ''country'', ''jazz'', ''classical'',
      ''latin'', ''reggae'']"
  by (simp add: top_genres_def)


lemma set_map_to_top_genres:
  "set (map_to_top_genres tg v) =
     {top. \<exists>subs genre. (top, subs) \<in> set tg \<and> genre \<in> set (raw_tags v) \<and> any_sub subs genre}"
  by (cases "genre_list v") (simp_all add: map_to_top_genres_def raw_tags_def set_fold_add_genre)






section \<open>Properties of the genre aggregate\<close>

lemma map_of_map_key:
  "k \<in> set ks \<Longrightarrow> map_of (map (\<lambda>k. (k, f k)) ks) k = Some (f k)"
  by (induction ks) auto

text \<open>
  Claim C10. \<^verbatim>\<open>genre_collaboration_stats\<close> returns one entry for each of the ten
  canonical genres, in the order of the taxonomy; the value of a genre that some artist of
  the dataset has is the arithmetic mean of \<^verbatim>\<open>collab_count\<close> over the artists whose
  canonical genres contain it, and the value of a genre without artists is 0.
\<close>

theorem genre_collaboration_stats_entries:
  "map fst (genre_collaboration_stats top_genres df) =
     [''pop'', ''rock'', ''hip-hop'', ''edm'', ''r&b'', ''country'', ''jazz'', ''classical'',
      ''latin'', ''reggae'']
   \<and> (\<forall>g \<in> set (map fst top_genres).
         map_of (genre_collaboration_stats top_genres df) g =
           Some (if \<exists>r \<in> set df. g \<in> set (cleaned_genres r)
                 then (\<Sum>r\<leftarrow>filter (\<lambda>r. g \<in> set (cleaned_genres r)) df. of_nat (collab_count r))
                        / of_nat (length (filter (\<lambda>r. g \<in> set (cleaned_genres r)) df))
                 else 0))"
proof (intro conjI ballI)
  show "map fst (genre_collaboration_stats top_genres df) =
     [''pop'', ''rock'', ''hip-hop'', ''edm'', ''r&b'', ''country'', ''jazz'', ''classical'',
      ''latin'', ''reggae'']"
    by (simp add: genre_collaboration_stats_def Let_def comp_def top_genres_keys)
next
  fix g assume g: "g \<in> set (map fst top_genres)"
  let ?ga = "filter (\<lambda>r. g \<in> set (cleaned_genres r)) df"
  have ne: "(?ga \<noteq> []) = (\<exists>r \<in> set df. g \<in> set (cleaned_genres r))"
    by (auto simp: filter_empty_conv)
  define F :: "string \<Rightarrow> rat" where
    "F = (\<lambda>genre. if filter (\<lambda>r. genre \<in> set (cleaned_genres r)) df \<noteq> []
            then mean (map (\<lambda>r. of_nat (collab_count r))
                        (filter (\<lambda>r. genre \<in> set (cleaned_genres r)) df))
            else 0)"
  have "genre_collaboration_stats top_genres df = map (\<lambda>k. (k, F k)) (map fst top_genres)"
    by (simp add: genre_collaboration_stats_def Let_def F_def)
  then have "map_of (genre_collaboration_stats top_genres df) g = Some (F g)"
    using map_of_map_key [OF g, of F] by (simp only:)
  then have "map_of (genre_collaboration_stats top_genres df) g =
      Some (if ?ga \<noteq> [] then mean (map (\<lambda>r. of_nat (collab_count r)) ?ga) else 0)"
    by (simp only: F_def)
  then show "map_of (genre_collaboration_stats top_genres df) g =
           Some (if \<exists>r \<in> set df. g \<in> set (cleaned_genres r)
                 then (\<Sum>r\<leftarrow>?ga. of_nat (collab_count r)) / of_nat (length ?ga)
                 else 0)"
    unfolding ne by (simp add: mean_def)
qed

theorem genre_collaboration_stats_entries_witness:
  "map_of (genre_collaboration_stats top_genres
      [example_row ''A'' 90 [''k-pop'', ''trap''] 3, example_row ''B'' 80 [''dance pop''] 2])
      ''pop'' = Some (5 / 2)
   \<and> map_of (genre_collaboration_stats top_genres
      [example_row ''A'' 90 [''k-pop'', ''trap''] 3, example_row ''B'' 80 [''dance pop''] 2])
      ''jazz'' = Some 0"
proof -
  let ?df = "[example_row ''A'' 90 [''k-pop'', ''trap''] 3, example_row ''B'' 80 [''dance pop''] 2]"
  have all: "\<forall>g \<in> set (map fst top_genres).
         map_of (genre_collaboration_stats top_genres ?df) g =
           Some (if \<exists>r \<in> set ?df. g \<in> set (cleaned_genres r)
                 then (\<Sum>r\<leftarrow>filter (\<lambda>r. g \<in> set (cleaned_genres r)) ?df. of_nat (collab_count r))
                        / of_nat (length (filter (\<lambda>r. g \<in> set (cleaned_genres r)) ?df))
                 else 0)"
    using genre_collaboration_stats_entries [of ?df] by (elim conjE)
  have p: "''pop'' \<in> set (map fst top_genres)" and j: "''jazz'' \<in> set (map fst top_genres)"
    by (simp_all add: top_genres_keys)
  have vp: "(if \<exists>r \<in> set ?df. ''pop'' \<in> set (cleaned_genres r)
                 then (\<Sum>r\<leftarrow>filter (\<lambda>r. ''pop'' \<in> set (cleaned_genres r)) ?df. of_nat (collab_count r))
                        / of_nat (length (filter (\<lambda>r. ''pop'' \<in> set (cleaned_genres r)) ?df))
                 else 0) = (5 / 2 :: rat)"
    by code_simp
  have vj: "(if \<exists>r \<in> set ?df. ''jazz'' \<in> set (cleaned_genres r)
                 then (\<Sum>r\<leftarrow>filter (\<lambda>r. ''jazz'' \<in> set (cleaned_genres r)) ?df. of_nat (collab_count r))
                        / of_nat (length (filter (\<lambda>r. ''jazz'' \<in> set (cleaned_genres r)) ?df))
                 else 0) = (0 :: rat)"
    by code_simp
  from bspec [OF all p] bspec [OF all j] show ?thesis
    unfolding vp vj by (intro conjI)
qed

section \<open>Properties of element building\<close>

lemma artist_info_missing:
  "(\<forall>r \<in> set nodes_df. spotify_id r \<noteq> a) \<Longrightarrow> artist_info nodes_df a = Inl IndexError"
proof -
  assume "\<forall>r \<in> set nodes_df. spotify_id r \<noteq> a"
  then have "filter (\<lambda>r. spotify_id r = a) nodes_df = []"
    by (simp add: filter_empty_conv)
  then show ?thesis by (simp add: artist_info_def)
qed

lemma artist_info_found:
  "artist_info nodes_df a = Inr r \<Longrightarrow> r \<in> set nodes_df \<and> spotify_id r = a"
proof -
  assume h: "artist_info nodes_df a = Inr r"
  then obtain rs where "filter (\<lambda>r. spotify_id r = a) nodes_df = r # rs"
    by (auto simp: artist_info_def split: list.splits)
  then have "r \<in> set (filter (\<lambda>r. spotify_id r = a) nodes_df)" by simp
  then show ?thesis by simp
qed

lemma node_elements_missing:
  assumes "a \<in> set ids" "\<forall>r \<in> set nodes_df. spotify_id r \<noteq> a"
  shows "\<exists>e. node_elements nodes_df degs ids = Inl e"
  using assms(1)
proof (induction ids)
  case Nil
  then show ?case by simp
next
  case (Cons b ids)
  show ?case
  proof (cases "b = a")
    case True
    then show ?thesis using artist_info_missing [OF assms(2)] by simp
  next
    case False
    with Cons obtain e where "node_elements nodes_df degs ids = Inl e" by auto
    then show ?thesis by (simp split: sum.splits)
  qed
qed

lemma node_elements_error:
  assumes "\<forall>b \<in> set ids. map_of degs b \<noteq> None" "node_elements nodes_df degs ids = Inl e"
  shows "e = IndexError"
  using assms
proof (induction ids)
  case Nil
  then show ?case by simp
next
  case (Cons b ids)
  then show ?case
    by (auto simp: artist_info_def degree_of_def split: sum.splits list.splits option.splits)
qed

lemma node_markers_missing:
  assumes "a \<in> set ids" "\<forall>r \<in> set nodes_df. spotify_id r \<noteq> a"
  shows "\<exists>e. node_markers nodes_df degs ids = Inl e"
  using assms(1)
proof (induction ids)
  case Nil
  then show ?case by simp
next
  case (Cons b ids)
  show ?case
  proof (cases "b = a")
    case True
    then show ?thesis using artist_info_missing [OF assms(2)] by simp
  next
    case False
    with Cons obtain e where "node_markers nodes_df degs ids = Inl e" by auto
    then show ?thesis by (simp split: sum.splits)
  qed
qed

lemma node_markers_error:
  assumes "\<forall>b \<in> set ids. map_of degs b \<noteq> None" "node_markers nodes_df degs ids = Inl e"
  shows "e = IndexError"
  using assms
proof (induction ids)
  case Nil
  then show ?case by simp
next
  case (Cons b ids)
  then show ?case
    by (auto simp: artist_info_def degree_of_def split: sum.splits list.splits option.splits)
qed

lemma map_of_degrees: "map_of (degrees g) n \<noteq> None \<longleftrightarrow> n \<in> set (map fst g)"
proof -
  have "map fst (degrees g) = map fst g"
    by (simp add: degrees_def comp_def case_prod_beta)
  then show ?thesis by (metis map_of_eq_None_iff set_map)
qed

text \<open>
  A node of the graph without a row in an empty node table: both operations raise
  \<^verbatim>\<open>IndexError\<close>, where the specification has the lookup signal its failure without
  raising.
\<close>

theorem missing_row_counterexample:
  "create_network_elements [] (from_pandas_edgelist [(''A'', ''B'')])
      (degrees (from_pandas_edgelist [(''A'', ''B'')])) [''A''] = Inl IndexError
   \<and> create_3d_network [] (from_pandas_edgelist [(''A'', ''B'')])
      (degrees (from_pandas_edgelist [(''A'', ''B'')])) [''A''] = Inl IndexError"
  by code_simp

text \<open>
  Claim C1, amended. When an identifier passed to \<^verbatim>\<open>create_network_elements\<close> or
  \<^verbatim>\<open>create_3d_network\<close> is a node of the graph without a row in the node table, and
  the identifiers passed are nodes of the graph, the operation raises \<^verbatim>\<open>IndexError\<close>:
  it returns no elements and puts no default values in the place of the missing attributes.
\<close>

theorem missing_row_raises:
  assumes "\<forall>r \<in> set nodes_df. spotify_id r \<noteq> a"
    and "a \<in> set artist_ids"
    and "set artist_ids \<subseteq> set (map fst (from_pandas_edgelist edges_df))"
  shows "create_network_elements nodes_df (from_pandas_edgelist edges_df)
           (degrees (from_pandas_edgelist edges_df)) artist_ids = Inl IndexError
       \<and> create_3d_network nodes_df (from_pandas_edgelist edges_df)
           (degrees (from_pandas_edgelist edges_df)) artist_ids = Inl IndexError"
proof -
  let ?G = "from_pandas_edgelist edges_df"
  have d2: "\<forall>b \<in> set artist_ids. map_of (degrees ?G) b \<noteq> None"
    using assms(3) map_of_degrees by blast
  obtain e where e: "node_elements nodes_df (degrees ?G) artist_ids = Inl e"
    using node_elements_missing [OF assms(2) assms(1)] by blast
  with node_elements_error [OF d2 e]
  have "create_network_elements nodes_df ?G (degrees ?G) artist_ids = Inl IndexError"
    by (simp add: create_network_elements_def)
  moreover
  let ?ns = "filter (\<lambda>n. n \<in> set artist_ids) (map fst ?G)"
  have d3: "\<forall>b \<in> set ?ns. map_of (degrees ?G) b \<noteq> None"
    using map_of_degrees by auto
  have "a \<in> set ?ns" using assms(2,3) by auto
  from node_markers_missing [OF this assms(1)]
  obtain e' where e': "node_markers nodes_df (degrees ?G) ?ns = Inl e'" by blast
  with node_markers_error [OF d3 e']
  have "create_3d_network nodes_df ?G (degrees ?G) artist_ids = Inl IndexError"
    by (simp add: create_3d_network_def)
  ultimately show ?thesis by simp
qed

theorem missing_row_raises_witness:
  "create_network_elements [example_node ''B'' 80 [''pop''] NaN]
      (from_pandas_edgelist [(''A'', ''B'')]) (degrees (from_pandas_edgelist [(''A'', ''B'')]))
      [''B'', ''A''] = Inl IndexError
   \<and> create_3d_network [example_node ''B'' 80 [''pop''] NaN]
      (from_pandas_edgelist [(''A'', ''B'')]) (degrees (from_pandas_edgelist [(''A'', ''B'')]))
      [''B'', ''A''] = Inl IndexError"
proof -
  have h1: "\<forall>r \<in> set [example_node ''B'' 80 [''pop''] NaN]. spotify_id r \<noteq> ''A''"
    by (simp add: example_node_def)
  have h2: "''A'' \<in> set [''B'', ''A'']" by simp
  have h3: "set [''B'', ''A''] \<subseteq> set (map fst (from_pandas_edgelist [(''A'', ''B'')]))"
    by code_simp
  show ?thesis by (rule missing_row_raises [OF h1 h2 h3])
qed

section \<open>Properties of the Record Loader\<close>

lemma list_items_body:
  assumes "q \<notin> set s" "\<forall>c \<in> set s. plain_char c"
  shows "list_items (InStr q cur) acc (s @ q # rest) = list_items ExpectSep (acc @ [cur @ s]) rest"
  using assms
proof (induction s arbitrary: cur)
  case Nil
  show ?case by simp
next
  case (Cons c s)
  then have "c \<noteq> q" and "plain_char c" by auto
  then have "list_items (InStr q cur) acc ((c # s) @ q # rest) =
             list_items (InStr q (cur @ [c])) acc (s @ q # rest)"
    by simp
  also have "\<dots> = list_items ExpectSep (acc @ [(cur @ [c]) @ s]) rest"
    using Cons by simp
  finally show ?case by simp
qed

lemma list_items_repr:
  assumes "plain_str x"
  shows "list_items ExpectItem acc (repr_str x @ rest) = list_items ExpectSep (acc @ [x]) rest"
proof (cases "CHR 0x27 \<in> set x \<and> CHR 0x22 \<notin> set x")
  case True
  have p: "\<forall>c \<in> set x. plain_char c" using assms by (simp add: plain_str_def)
  from True have "repr_str x = CHR 0x22 # x @ [CHR 0x22]"
    by (auto simp: repr_str_def)
  then have "list_items ExpectItem acc (repr_str x @ rest) =
        list_items (InStr (CHR 0x22) []) acc (x @ CHR 0x22 # rest)"
    by (simp add: is_quote_def)
  also have "\<dots> = list_items ExpectSep (acc @ [[] @ x]) rest"
    using True p by (intro list_items_body) auto
  finally show ?thesis by simp
next
  case False
  have p: "\<forall>c \<in> set x. plain_char c" using assms by (simp add: plain_str_def)
  from False assms have nq: "CHR 0x27 \<notin> set x" by (auto simp: plain_str_def)
  from False have "repr_str x = CHR 0x27 # x @ [CHR 0x27]"
    by (auto simp: repr_str_def)
  then have "list_items ExpectItem acc (repr_str x @ rest) =
        list_items (InStr (CHR 0x27) []) acc (x @ CHR 0x27 # rest)"
    by (simp add: is_quote_def)
  also have "\<dots> = list_items ExpectSep (acc @ [[] @ x]) rest"
    using nq p by (intro list_items_body) auto
  finally show ?thesis by simp
qed

lemma list_items_join:
  assumes "\<forall>x \<in> set xs. plain_str x" "xs \<noteq> []"
  shows "list_items ExpectItem acc (join_items xs @ '']'') = Some (Inr (acc @ xs))"
  using assms
proof (induction xs arbitrary: acc rule: join_items.induct)
  case 1
  then show ?case by simp
next
  case (2 x)
  then show ?case by (simp add: list_items_repr)
next
  case (3 x y ys)
  have "list_items ExpectItem acc (join_items (x # y # ys) @ '']'') =
        list_items ExpectSep (acc @ [x]) ('', '' @ join_items (y # ys) @ '']'')"
    using 3 by (simp add: list_items_repr)
  also have "\<dots> = list_items ExpectItem (acc @ [x]) (join_items (y # ys) @ '']'')"
    by simp
  also have "\<dots> = Some (Inr ((acc @ [x]) @ y # ys))"
    using 3 by (intro "3.IH") auto
  finally show ?case by simp
qed

lemma py_eval_repr:
  assumes "\<forall>x \<in> set xs. plain_str x"
  shows "py_eval (py_repr xs) = Some (Inr xs)"
proof (cases "xs = []")
  case True
  then show ?thesis by (simp add: py_eval_def py_repr_def)
next
  case False
  with assms show ?thesis
    using list_items_join [of xs "[]"] by (simp add: py_eval_def py_repr_def)
qed

text \<open>
  A genre field that holds an opening bracket and nothing else is a string that is no list
  serialization. \<^verbatim>\<open>eval\<close> raises \<^verbatim>\<open>SyntaxError\<close> on it, no handler catches it, and
  \<^verbatim>\<open>load_data\<close> ends with that exception, where the specification has the loader map the
  field to the empty sequence.
\<close>

theorem load_genres_raises_counterexample:
  "load_genres (Text ''['') = Some (Inl SyntaxError)
   \<and> load_data [\<lparr>csv_spotify_id = ''A'', csv_name = ''a'', csv_followers = 10,
                  csv_popularity = 50, csv_genres = Text ''['', csv_chart_hits = NaN\<rparr>]
       = Some (Inl SyntaxError)"
  by code_simp

text \<open>
  Claim C2, amended. A value of the genre field that is not a string (a missing field, a
  number) is mapped to the empty sequence; the text that Python writes for a list of strings
  is mapped to that list, in order; for a string on which \<^verbatim>\<open>eval\<close> raises, the loader
  raises the same exception.
\<close>

theorem load_genres_cases:
  "((\<forall>s. x \<noteq> Text s) \<longrightarrow> load_genres x = Some (Inr (PyList [])))
   \<and> ((\<forall>g \<in> set xs. plain_str g) \<longrightarrow> load_genres (Text (py_repr xs)) = Some (Inr (PyList xs)))
   \<and> (py_eval s = Some (Inl e) \<longrightarrow> load_genres (Text s) = Some (Inl e))"
proof (intro conjI impI)
  assume "\<forall>s. x \<noteq> Text s"
  then show "load_genres x = Some (Inr (PyList []))"
    by (cases x) (simp_all add: load_genres_def)
next
  assume "\<forall>g \<in> set xs. plain_str g"
  then show "load_genres (Text (py_repr xs)) = Some (Inr (PyList xs))"
    by (simp add: load_genres_def py_eval_repr)
next
  assume "py_eval s = Some (Inl e)"
  then show "load_genres (Text s) = Some (Inl e)"
    by (simp add: load_genres_def)
qed

theorem load_genres_cases_witness:
  "load_genres NaN = Some (Inr (PyList []))
   \<and> load_genres (Text (py_repr [''dance pop'', ''children's music''])) =
       Some (Inr (PyList [''dance pop'', ''children's music'']))
   \<and> load_genres (Text ''['pop',  '') = Some (Inl SyntaxError)"
proof -
  have a: "\<forall>s. NaN \<noteq> Text s" by simp
  have b: "\<forall>g \<in> set [''dance pop'', ''children's music'']. plain_str g" by code_simp
  have c: "py_eval ''['pop',  '' = Some (Inl SyntaxError)" by code_simp
  from load_genres_cases [of NaN "[''dance pop'', ''children's music'']" "''['pop',  ''" SyntaxError]
  show ?thesis using a b c by blast
qed

section \<open>Properties of the Chart-Hit Expander\<close>

lemma parse_entries_Inr:
  "parse_entries es = Inr hs \<longleftrightarrow>
     (\<forall>e \<in> set es. \<exists>h. parse_entry e = Inr h) \<and> hs = map (\<lambda>e. projr (parse_entry e)) es"
proof (induction es arbitrary: hs)
  case Nil
  show ?case by auto
next
  case (Cons e es)
  show ?case
  proof (cases "parse_entry e")
    case (Inl err)
    then show ?thesis by simp
  next
    case (Inr h)
    note h = this
    show ?thesis
    proof (cases "parse_entries es")
      case (Inl err)
      with Cons.IH have "\<not> (\<forall>e \<in> set es. \<exists>h. parse_entry e = Inr h)" by auto
      with h Inl show ?thesis by auto
    next
      case (Inr hs')
      with Cons.IH [of hs'] h show ?thesis by auto
    qed
  qed
qed

lemma parse_entries_Inl:
  "(\<exists>err. parse_entries es = Inl err) \<longleftrightarrow> (\<exists>e \<in> set es. \<exists>err. parse_entry e = Inl err)"
proof -
  have "(\<exists>err. parse_entries es = Inl err) \<longleftrightarrow> \<not> (\<exists>hs. parse_entries es = Inr hs)"
    by (cases "parse_entries es") auto
  also have "\<dots> \<longleftrightarrow> \<not> (\<forall>e \<in> set es. \<exists>h. parse_entry e = Inr h)"
    by (simp add: parse_entries_Inr)
  also have "\<dots> \<longleftrightarrow> (\<exists>e \<in> set es. \<exists>err. parse_entry e = Inl err)"
    by (metis sum.exhaust sum.distinct(1))
  finally show ?thesis .
qed

lemma py_eval_empty_list: "py_eval ''[]'' = Some (Inr [])"
  by (simp add: py_eval_def)

lemma expand_chart_hits_Text:
  assumes "py_eval s = Some (Inr es)"
  shows "expand_chart_hits (Text s) =
           Some (case parse_entries es of Inl e \<Rightarrow> ([], [e]) | Inr hs \<Rightarrow> (hs, []))"
proof (cases "s = ''[]''")
  case True
  with assms py_eval_empty_list have "es = []" by simp
  with True show ?thesis by (simp add: expand_chart_hits_def)
next
  case False
  with assms show ?thesis by (simp add: expand_chart_hits_def split: sum.splits)
qed

lemma expand_chart_hits_malformed:
  assumes "py_eval s = Some (Inr es)" "e \<in> set es" "parse_entry e = Inl err"
  shows "\<exists>err'. expand_chart_hits (Text s) = Some ([], [err'])"
proof -
  from assms(2,3) obtain err' where "parse_entries es = Inl err'"
    using parse_entries_Inl by blast
  with expand_chart_hits_Text [OF assms(1)] show ?thesis by simp
qed

lemma collect_hits_append:
  assumes "collect_hits rs1 = Some (h1, l1)" "collect_hits rs2 = Some (h2, l2)"
  shows "collect_hits (rs1 @ rs2) = Some (h1 @ h2, l1 @ l2)"
  using assms
proof (induction rs1 arbitrary: h1 l1)
  case Nil
  then show ?case by simp
next
  case (Cons r rs1)
  then show ?case by (auto split: option.splits)
qed

lemma collect_hits_isolated:
  assumes "expand_chart_hits (chart_hits r) = Some ([], [err])"
    and "collect_hits rs1 = Some (h1, l1)" "collect_hits rs2 = Some (h2, l2)"
  shows "collect_hits (rs1 @ r # rs2) = Some (h1 @ h2, l1 @ err # l2)"
proof -
  have "collect_hits (r # rs2) = Some (h2, err # l2)"
    using assms(1,3) by simp
  from collect_hits_append [OF assms(2) this] show ?thesis .
qed

text \<open>
  Claim C4: a malformed entry makes the parse of its artist empty, the failure is printed,
  and other artists and the rest of the pipeline are not affected. The first half holds
  (\<open>expand_chart_hits_malformed\<close>, \<open>collect_hits_isolated\<close>). The second half fails
  when no other artist contributes a hit: for a single artist whose only entry has no
  number, the parse is empty with one printed line, and \<^verbatim>\<open>prepare_cleaned_data\<close> then
  raises \<^verbatim>\<open>KeyError\<close> in \<^verbatim>\<open>groupby\<close>; with a well-formed entry in its place the
  pipeline returns a dataset.
\<close>

theorem malformed_entry_aborts_pipeline:
  "expand_chart_hits (Text ''['us (x)']'') = Some ([], [ValueError])
   \<and> prepare_cleaned_data top_genres [(''A'', ''B'')]
        [example_node ''A'' 90 [''pop''] (Text ''['us (x)']'')] = Some (Inl KeyError)
   \<and> prepare_cleaned_data top_genres [(''A'', ''B'')]
        [example_node ''A'' 90 [''pop''] (Text ''['us (1)']'')] = Some (Inr [])"
  by code_simp

section \<open>Properties of the chart-hit aggregates\<close>

lemma hit_extend_fields [simp]:
  "hit_number (hit.extend h (artist_hit.fields sid)) = hit_number h"
  "country_code (hit.extend h (artist_hit.fields sid)) = country_code h"
  "hit_spotify_id (hit.extend h (artist_hit.fields sid)) = sid"
  by (simp_all add: hit.extend_def artist_hit.fields_def)

lemma collect_hits_filter:
  assumes "collect_hits rows = Some (expanded, printed)" "sid \<notin> set (map spotify_id rows)"
  shows "filter (\<lambda>h. hit_spotify_id h = sid) expanded = []"
  using assms
proof (induction rows arbitrary: expanded printed)
  case Nil
  then show ?case by simp
next
  case (Cons r rows)
  from Cons.prems(1) obtain cd p ex' p' where
    e2: "collect_hits rows = Some (ex', p')" and
    ex: "expanded = map (\<lambda>h. hit.extend h (artist_hit.fields (spotify_id r))) cd @ ex'"
    by (auto split: option.splits)
  from Cons.prems(2) have ne: "sid \<noteq> spotify_id r" and nin: "sid \<notin> set (map spotify_id rows)"
    by auto
  from Cons.IH [OF e2 nin] ne show ?case
    unfolding ex by (simp add: filter_empty_conv)
qed

lemma collect_hits_group:
  assumes "collect_hits rows = Some (expanded, printed)" "distinct (map spotify_id rows)"
    "r \<in> set rows" "expand_chart_hits (chart_hits r) = Some (hits, l)"
  shows "filter (\<lambda>h. hit_spotify_id h = spotify_id r) expanded =
           map (\<lambda>h. hit.extend h (artist_hit.fields (spotify_id r))) hits"
  using assms(1,2,3)
proof (induction rows arbitrary: expanded printed)
  case Nil
  then show ?case by simp
next
  case (Cons r' rows)
  from Cons.prems(1) obtain cd p ex' p' where
    e1: "expand_chart_hits (chart_hits r') = Some (cd, p)" and
    e2: "collect_hits rows = Some (ex', p')" and
    ex: "expanded = map (\<lambda>h. hit.extend h (artist_hit.fields (spotify_id r'))) cd @ ex'"
    by (auto split: option.splits)
  show ?case
  proof (cases "r = r'")
    case True
    with Cons.prems(2) have "spotify_id r \<notin> set (map spotify_id rows)" by simp
    from collect_hits_filter [OF e2 this] True e1 assms(4) show ?thesis
      unfolding ex by (simp add: filter_id_conv)
  next
    case False
    with Cons.prems(3) have rin: "r \<in> set rows" by simp
    then have "spotify_id r \<in> set (map spotify_id rows)" by simp
    moreover from Cons.prems(2) have "spotify_id r' \<notin> set (map spotify_id rows)" by simp
    ultimately have "spotify_id r \<noteq> spotify_id r'" by metis
    moreover from Cons.IH [OF e2 _ rin] Cons.prems(2)
    have "filter (\<lambda>h. hit_spotify_id h = spotify_id r) ex' =
           map (\<lambda>h. hit.extend h (artist_hit.fields (spotify_id r))) hits" by simp
    ultimately show ?thesis unfolding ex by (simp add: filter_empty_conv)
  qed
qed

lemma grouped_hits_lookup:
  assumes "grouped_hits expanded = Inr grouped"
    and "filter (\<lambda>h. hit_spotify_id h = sid) expanded \<noteq> []"
  shows "map_of grouped sid =
           Some (total_hits_of (filter (\<lambda>h. hit_spotify_id h = sid) expanded),
                 num_countries_of (filter (\<lambda>h. hit_spotify_id h = sid) expanded))"
proof -
  define F where "F = (\<lambda>sid. (total_hits_of (filter (\<lambda>h. hit_spotify_id h = sid) expanded),
                 num_countries_of (filter (\<lambda>h. hit_spotify_id h = sid) expanded)))"
  from assms(1) have g: "grouped = map (\<lambda>k. (k, F k)) (sort (remdups (map hit_spotify_id expanded)))"
    by (auto simp: grouped_hits_def Let_def F_def split: if_splits)
  from assms(2) have "sid \<in> set (sort (remdups (map hit_spotify_id expanded)))"
    by (auto simp: filter_empty_conv)
  from map_of_map_key [OF this, of F] show ?thesis unfolding g F_def .
qed

lemma total_hits_of_map_extend:
  "total_hits_of (map (\<lambda>h. hit.extend h (artist_hit.fields sid)) hits) =
     int64_wrap (sum_list (map hit_number hits))"
  by (simp add: total_hits_of_def comp_def)

lemma int64_wrap_in_range: "in_int64 x \<Longrightarrow> int64_wrap x = x"
  by (simp add: in_int64_def int64_wrap_def)

lemma float64_of_int_exact: "\<bar>v\<bar> \<le> 2 ^ 53 \<Longrightarrow> float64_of_int v = v"
  by (simp add: float64_of_int_def)

lemma hits_frame_Some: "hits_frame expanded = Some frame \<Longrightarrow> frame = expanded"
  by (simp add: hits_frame_def split: if_splits)

lemma merge_hits_member:
  assumes "r \<in> set df" "map_of grouped (spotify_id r) = Some (t, n)"
  shows "(r, Some (if list_ex (\<lambda>r. map_of grouped (spotify_id r) = None) df
                   then float64_of_int t else t, n)) \<in> set (merge_hits df grouped)"
proof -
  let ?u = "list_ex (\<lambda>r. map_of grouped (spotify_id r) = None) df"
  let ?f = "\<lambda>r. (r, case map_of grouped (spotify_id r) of
                          None \<Rightarrow> None
                        | Some (t, n) \<Rightarrow> Some (if ?u then float64_of_int t else t, n))"
  have "?f r \<in> set (map ?f df)" using assms(1) by (rule imageI [of r "set df" ?f, folded set_map])
  moreover have "?f r = (r, Some (if ?u then float64_of_int t else t, n))"
    using assms(2) by simp
  moreover have "merge_hits df grouped = map ?f df"
    by (simp add: merge_hits_def Let_def)
  ultimately show ?thesis by simp
qed

lemma num_countries_of_map_extend:
  "num_countries_of (map (\<lambda>h. hit.extend h (artist_hit.fields sid)) hits) =
     card (set (map country_code hits))"
  by (simp add: num_countries_of_def comp_def length_remdups_card_conv image_image)

lemma permuted_entries_aggregates:
  assumes "py_eval s = Some (Inr es)" "py_eval s' = Some (Inr es')" "mset es = mset es'"
    "expand_chart_hits (Text s) = Some (hs, l)" "expand_chart_hits (Text s') = Some (hs', l')"
  shows "sum_list (map hit_number hs) = sum_list (map hit_number hs') \<and>
         card (set (map country_code hs)) = card (set (map country_code hs'))"
proof -
  from assms(3) have seteq: "set es = set es'" by (rule mset_eq_setD)
  show ?thesis
  proof (cases "parse_entries es")
    case (Inl err)
    then have "\<exists>err. parse_entries es' = Inl err"
      using parse_entries_Inl [of es] parse_entries_Inl [of es'] seteq by auto
    then obtain err' where "parse_entries es' = Inl err'" by blast
    with Inl assms(4,5) expand_chart_hits_Text [OF assms(1)] expand_chart_hits_Text [OF assms(2)]
    show ?thesis by simp
  next
    case (Inr h)
    then have all: "\<forall>e \<in> set es. \<exists>h. parse_entry e = Inr h"
      and h: "h = map (\<lambda>e. projr (parse_entry e)) es"
      by (simp_all add: parse_entries_Inr)
    from all seteq have p': "parse_entries es' = Inr (map (\<lambda>e. projr (parse_entry e)) es')"
      by (simp add: parse_entries_Inr)
    from Inr h assms(4) expand_chart_hits_Text [OF assms(1)]
    have hs: "hs = map (\<lambda>e. projr (parse_entry e)) es" by simp
    from p' assms(5) expand_chart_hits_Text [OF assms(2)]
    have hs': "hs' = map (\<lambda>e. projr (parse_entry e)) es'" by simp
    have "mset (map hit_number hs) = mset (map hit_number hs')"
      unfolding hs hs' map_map using assms(3) by (metis mset_map)
    then have "sum_list (map hit_number hs) = sum_list (map hit_number hs')"
      by (metis sum_mset_sum_list)
    moreover have "set (map country_code hs) = set (map country_code hs')"
      unfolding hs hs' using seteq by simp
    ultimately show ?thesis by simp
  qed
qed

text \<open>
  An artist with two chart hits of number \<open>2\<^sup>6\<^sup>2\<close>: the sum of the parsed hit numbers is
  \<open>2\<^sup>6\<^sup>3\<close>, and the aggregate that \<^verbatim>\<open>groupby\<close> computes in 64-bit integers is
  \<open>- 2\<^sup>6\<^sup>3\<close>. And an artist with the single hit number \<open>2\<^sup>5\<^sup>3 + 1\<close>, beside an artist
  without a parsed hit: the value joined onto the first artist's row is \<open>2\<^sup>5\<^sup>3\<close>.
\<close>

theorem total_hits_wraps_counterexample:
  "map_of (projr (grouped_hits (the (hits_frame (fst (the (collect_hits
      (apply_genre_mapping top_genres
         [example_node ''A'' 90 [''pop'']
            (Text ''['us (4611686018427387904)', 'gb (4611686018427387904)']'')])))))))) ''A''
     = Some (- 9223372036854775808, 2)
   \<and> sum_list (map hit_number (fst (the (expand_chart_hits
         (Text ''['us (4611686018427387904)', 'gb (4611686018427387904)']'')))))
     = 9223372036854775808
   \<and> map (\<lambda>r. (spotify_id r, total_hits r, num_countries r))
       (stage3 (projr (the (pipeline top_genres [(''A'', ''B'')]
          [example_node ''A'' 90 [''pop''] (Text ''['us (9007199254740993)']''),
           example_node ''B'' 80 [''rock''] (Text ''['us (x)']'')]))))
     = [(''A'', 9007199254740992, 1)]"
  by code_simp

text \<open>
  Claim C9, amended. For the rows of a table with distinct identifiers whose hit numbers
  fit 64-bit signed integers, the aggregates of an artist with at least one parsed hit are:
  as \<^verbatim>\<open>total_hits\<close> the sum of the artist's parsed hit numbers reduced modulo \<open>2\<^sup>6\<^sup>4\<close> into
  the 64-bit signed range, which is the sum itself when the sum lies in that range, and as
  \<^verbatim>\<open>num_countries\<close> the number of distinct country codes among the parsed hits; the pair
  joined onto the artist's row holds the sum itself when its magnitude is at most
  \<open>2\<^sup>5\<^sup>3\<close>; and a chart-hit list whose entries are a permutation of the artist's entries
  has the same sum of hit numbers and the same number of distinct country codes, hence the
  same aggregates.
\<close>

theorem chart_hit_aggregates:
  assumes "distinct (map spotify_id rows)"
    and "collect_hits rows = Some (expanded, printed)"
    and "hits_frame expanded = Some expanded_hits_df"
    and "grouped_hits expanded_hits_df = Inr grouped"
    and "r \<in> set rows"
    and "expand_chart_hits (chart_hits r) = Some (hits, l)"
    and "hits \<noteq> []"
  shows "map_of grouped (spotify_id r) =
           Some ((sum_list (map hit_number hits) + 2 ^ 63) mod 2 ^ 64 - 2 ^ 63,
                 card (set (map country_code hits)))
       \<and> (- (2 ^ 63) \<le> sum_list (map hit_number hits) \<and> sum_list (map hit_number hits) < 2 ^ 63
            \<longrightarrow> map_of grouped (spotify_id r) =
                  Some (sum_list (map hit_number hits), card (set (map country_code hits))))
       \<and> (\<bar>sum_list (map hit_number hits)\<bar> \<le> 2 ^ 53
            \<longrightarrow> (r, Some (sum_list (map hit_number hits), card (set (map country_code hits))))
                  \<in> set (merge_hits rows grouped))
       \<and> (\<forall>s es s' es' hs' l'.
             chart_hits r = Text s \<and> py_eval s = Some (Inr es) \<and>
             py_eval s' = Some (Inr es') \<and> mset es' = mset es \<and>
             expand_chart_hits (Text s') = Some (hs', l') \<longrightarrow>
             sum_list (map hit_number hs') = sum_list (map hit_number hits) \<and>
             card (set (map country_code hs')) = card (set (map country_code hits)))"
proof (intro conjI)
  let ?g = "filter (\<lambda>h. hit_spotify_id h = spotify_id r) expanded"
  let ?sum = "sum_list (map hit_number hits)"
  let ?n = "card (set (map country_code hits))"
  have fr: "expanded_hits_df = expanded" by (rule hits_frame_Some [OF assms(3)])
  have g: "?g = map (\<lambda>h. hit.extend h (artist_hit.fields (spotify_id r))) hits"
    by (rule collect_hits_group [OF assms(2) assms(1) assms(5) assms(6)])
  with assms(7) have "?g \<noteq> []" by simp
  from grouped_hits_lookup [OF assms(4) [unfolded fr] this]
  have w: "map_of grouped (spotify_id r) = Some (int64_wrap ?sum, ?n)"
    unfolding g total_hits_of_map_extend num_countries_of_map_extend .
  then show "map_of grouped (spotify_id r) = Some ((?sum + 2 ^ 63) mod 2 ^ 64 - 2 ^ 63, ?n)"
    by (simp only: int64_wrap_def)
  show "- (2 ^ 63) \<le> ?sum \<and> ?sum < 2 ^ 63 \<longrightarrow> map_of grouped (spotify_id r) = Some (?sum, ?n)"
  proof
    assume "- (2 ^ 63) \<le> ?sum \<and> ?sum < 2 ^ 63"
    then have "in_int64 ?sum" by (simp add: in_int64_def)
    from w int64_wrap_in_range [OF this]
    show "map_of grouped (spotify_id r) = Some (?sum, ?n)" by simp
  qed
  show "\<bar>?sum\<bar> \<le> 2 ^ 53 \<longrightarrow> (r, Some (?sum, ?n)) \<in> set (merge_hits rows grouped)"
  proof
    assume small: "\<bar>?sum\<bar> \<le> 2 ^ 53"
    then have "- (2 ^ 53) \<le> ?sum" and "?sum \<le> 2 ^ 53" by (simp_all add: abs_le_iff)
    then have "in_int64 ?sum" by (simp add: in_int64_def)
    from w int64_wrap_in_range [OF this]
    have m: "map_of grouped (spotify_id r) = Some (?sum, ?n)" by simp
    have "(if list_ex (\<lambda>r. map_of grouped (spotify_id r) = None) rows
           then float64_of_int ?sum else ?sum) = ?sum"
      using float64_of_int_exact [OF small] by (simp split: if_splits)
    with merge_hits_member [OF assms(5) m]
    show "(r, Some (?sum, ?n)) \<in> set (merge_hits rows grouped)" by (simp only:)
  qed
  show "\<forall>s es s' es' hs' l'.
             chart_hits r = Text s \<and> py_eval s = Some (Inr es) \<and>
             py_eval s' = Some (Inr es') \<and> mset es' = mset es \<and>
             expand_chart_hits (Text s') = Some (hs', l') \<longrightarrow>
             sum_list (map hit_number hs') = sum_list (map hit_number hits) \<and>
             card (set (map country_code hs')) = card (set (map country_code hits))"
  proof (intro allI impI)
    fix s es s' es' hs' l'
    assume a: "chart_hits r = Text s \<and> py_eval s = Some (Inr es) \<and>
               py_eval s' = Some (Inr es') \<and> mset es' = mset es \<and>
               expand_chart_hits (Text s') = Some (hs', l')"
    then have e: "expand_chart_hits (Text s) = Some (hits, l)" using assms(6) by simp
    from a have m: "mset es = mset es'" and p1: "py_eval s = Some (Inr es)"
      and p2: "py_eval s' = Some (Inr es')"
      and e2: "expand_chart_hits (Text s') = Some (hs', l')"
      by simp_all
    from permuted_entries_aggregates [OF p1 p2 m e e2]
    show "sum_list (map hit_number hs') = sum_list (map hit_number hits) \<and>
          card (set (map country_code hs')) = card (set (map country_code hits))"
      by simp
  qed
qed

theorem chart_hit_aggregates_witness:
  "map_of (projr (grouped_hits (the (hits_frame (fst (the (collect_hits
      (apply_genre_mapping top_genres
         [example_node ''A'' 90 [''pop''] (Text ''['us (2)', 'gb (3)', 'us (5)']''),
          example_node ''B'' 80 [''rock''] (Text ''['fr (7)']'')])))))))) ''A'' = Some (10, 2)
   \<and> sum_list (map hit_number
         (fst (the (expand_chart_hits (Text ''['gb (3)', 'us (5)', 'us (2)']''))))) = 10"
proof -
  let ?rows = "apply_genre_mapping top_genres
       [example_node ''A'' 90 [''pop''] (Text ''['us (2)', 'gb (3)', 'us (5)']''),
        example_node ''B'' 80 [''rock''] (Text ''['fr (7)']'')]"
  let ?hits = "[\<lparr>country_code = ''us'', hit_number = 2\<rparr>,
                \<lparr>country_code = ''gb'', hit_number = 3\<rparr>,
                \<lparr>country_code = ''us'', hit_number = 5\<rparr>]"
  let ?s' = "''['gb (3)', 'us (5)', 'us (2)']''"
  let ?ex = "fst (the (collect_hits ?rows))"
  have d: "distinct (map spotify_id ?rows)" by code_simp
  have c: "collect_hits ?rows = Some (?ex, snd (the (collect_hits ?rows)))"
    by code_simp
  have f: "hits_frame ?ex = Some (the (hits_frame ?ex))"
    by code_simp
  have g: "grouped_hits (the (hits_frame ?ex)) =
             Inr (projr (grouped_hits (the (hits_frame ?ex))))"
    by code_simp
  have r: "hd ?rows \<in> set ?rows" by code_simp
  have e: "expand_chart_hits (chart_hits (hd ?rows)) = Some (?hits, [])" by code_simp
  have n: "?hits \<noteq> []" by simp
  have sid: "spotify_id (hd ?rows) = ''A''" by code_simp
  have v: "sum_list (map hit_number ?hits) = 10" by simp
  have k: "card (set (map country_code ?hits)) = 2" by code_simp
  have p: "chart_hits (hd ?rows) = Text ''['us (2)', 'gb (3)', 'us (5)']'' \<and>
           py_eval ''['us (2)', 'gb (3)', 'us (5)']'' =
             Some (Inr [''us (2)'', ''gb (3)'', ''us (5)'']) \<and>
           py_eval ?s' = Some (Inr [''gb (3)'', ''us (5)'', ''us (2)'']) \<and>
           mset [''gb (3)'', ''us (5)'', ''us (2)''] = mset [''us (2)'', ''gb (3)'', ''us (5)''] \<and>
           expand_chart_hits (Text ?s') =
             Some (fst (the (expand_chart_hits (Text ?s'))),
                   snd (the (expand_chart_hits (Text ?s'))))"
    by code_simp
  note t = chart_hit_aggregates [OF d c f g r e n]
  have rng: "- (2 ^ 63) \<le> sum_list (map hit_number ?hits) \<and>
             sum_list (map hit_number ?hits) < 2 ^ 63"
    unfolding v by simp
  from t rng have "map_of (projr (grouped_hits (the (hits_frame ?ex)))) (spotify_id (hd ?rows)) =
           Some (sum_list (map hit_number ?hits), card (set (map country_code ?hits)))"
    by blast
  then have a: "map_of (projr (grouped_hits (the (hits_frame ?ex)))) ''A'' = Some (10, 2)"
    unfolding sid v k .
  from t p have "sum_list (map hit_number (fst (the (expand_chart_hits (Text ?s'))))) =
                 sum_list (map hit_number ?hits)"
    by blast
  then have b: "sum_list (map hit_number (fst (the (expand_chart_hits (Text ?s'))))) = 10"
    unfolding v .
  from a b show ?thesis by (rule conjI)
qed

section \<open>Properties of the collaboration count\<close>

lemma map_of_map_key_None:
  "k \<notin> set ks \<Longrightarrow> map_of (map (\<lambda>k. (k, f k)) ks) k = None"
  by (induction ks) auto

lemma map_of_sort_key:
  assumes "distinct (map fst l)"
  shows "map_of (sort_key f l) = map_of l"
proof -
  have m: "mset (map fst (sort_key f l)) = mset (map fst l)"
    by simp
  have d2: "distinct (map fst (sort_key f l))"
    using assms mset_eq_imp_distinct_iff [OF m] by (simp only:)
  have "set (sort_key f l) = set l" by simp
  with assms d2 show ?thesis
    by (simp add: map_of_inject_set)
qed

lemma map_of_value_counts:
  "map_of (value_counts xs) k = (if k \<in> set xs then Some (count_list xs k) else None)"
proof -
  have d1: "distinct (map fst (map (\<lambda>k. (k, count_list xs k)) (remdups xs)))"
    by (simp add: comp_def)
  have "map_of (value_counts xs) k = map_of (map (\<lambda>k. (k, count_list xs k)) (remdups xs)) k"
    unfolding value_counts_def map_of_sort_key [OF d1] ..
  also have "\<dots> = (if k \<in> set xs then Some (count_list xs k) else None)"
    using map_of_map_key [of k "remdups xs" "count_list xs"]
          map_of_map_key_None [of k "remdups xs" "count_list xs"] by simp
  finally show ?thesis .
qed

lemma final_row_extend [simp]:
  "collab_count (hits_row.extend r (final_row.fields c)) = c"
  "spotify_id (hits_row.extend r (final_row.fields c)) = spotify_id r"
  "popularity (hits_row.extend r (final_row.fields c)) = popularity r"
  "cleaned_genres (hits_row.extend r (final_row.fields c)) = cleaned_genres r"
  "total_hits (hits_row.extend r (final_row.fields c)) = total_hits r"
  "num_countries (hits_row.extend r (final_row.fields c)) = num_countries r"
  by (simp_all add: hits_row.extend_def final_row.fields_def)

lemma merge_collabs_counts:
  "map (\<lambda>r. (spotify_id r, collab_count r)) (merge_collabs df (artist_collabs edges_df)) =
   map (\<lambda>r. (spotify_id r, count_list (map fst edges_df @ map snd edges_df) (spotify_id r))) df"
  by (simp add: merge_collabs_def artist_collabs_def map_of_value_counts comp_def
      del: count_list.simps)

lemma pipeline_stage6:
  assumes "pipeline tg edges_df nodes_df = Some (Inr st)"
  shows "stage6 st = merge_collabs (stage5 st) (artist_collabs edges_df)"
proof -
  let ?s2 = "apply_genre_mapping tg (nlargest 100 popularity nodes_df)"
  from assms obtain expanded printed where c: "collect_hits ?s2 = Some (expanded, printed)"
    by (cases "collect_hits ?s2") (auto simp: pipeline_def Let_def)
  from assms c obtain frame where f: "hits_frame expanded = Some frame"
    by (cases "hits_frame expanded") (auto simp: pipeline_def Let_def)
  from assms c f obtain grouped where g: "grouped_hits frame = Inr grouped"
    by (cases "grouped_hits frame") (auto simp: pipeline_def Let_def)
  from assms c f g show ?thesis
    by (auto simp: pipeline_def Let_def)
qed

text \<open>
  Two artists and the same edge entered twice: stage 6 joins the count 2 onto both, where
  the count over collapsed unordered pairs is 1.
\<close>

theorem collab_count_counterexample:
  "map (\<lambda>r. (spotify_id r, collab_count r))
       (stage6 (projr (the (pipeline top_genres [(''A'', ''B''), (''A'', ''B'')]
          [example_node ''A'' 90 [''pop''] (Text ''['us (1)']''),
           example_node ''B'' 80 [''rock''] (Text ''['gb (2)']'')]))))
     = [(''A'', 2), (''B'', 2)]
   \<and> spec_collab_count [(''A'', ''B''), (''A'', ''B'')] ''A'' = 1"
  by code_simp

text \<open>
  Claim C3, amended. For every row that survives stage 5, the collaboration count joined
  in stage 6 is the number of appearances of its identifier in the two columns of the edge
  table, both endpoints of a row counted and a repeated row counted each time; an artist
  that appears in no edge has the count 0.
\<close>

theorem collab_count_appearances:
  assumes "pipeline tg edges_df nodes_df = Some (Inr st)"
  shows "map (\<lambda>r. (spotify_id r, collab_count r)) (stage6 st) =
         map (\<lambda>r. (spotify_id r,
                    count_list (map fst edges_df @ map snd edges_df) (spotify_id r))) (stage5 st)
       \<and> (\<forall>r \<in> set (stage6 st).
            spotify_id r \<notin> set (map fst edges_df) \<union> set (map snd edges_df) \<longrightarrow> collab_count r = 0)"
proof (rule conjI)
  show m: "map (\<lambda>r. (spotify_id r, collab_count r)) (stage6 st) =
         map (\<lambda>r. (spotify_id r,
                    count_list (map fst edges_df @ map snd edges_df) (spotify_id r))) (stage5 st)"
    unfolding pipeline_stage6 [OF assms] by (rule merge_collabs_counts)
  show "\<forall>r \<in> set (stage6 st).
            spotify_id r \<notin> set (map fst edges_df) \<union> set (map snd edges_df) \<longrightarrow> collab_count r = 0"
  proof (intro ballI impI)
    fix r assume r: "r \<in> set (stage6 st)"
      and n: "spotify_id r \<notin> set (map fst edges_df) \<union> set (map snd edges_df)"
    from r have "(spotify_id r, collab_count r) \<in> set (map (\<lambda>r. (spotify_id r, collab_count r)) (stage6 st))"
      by force
    then have "(spotify_id r, collab_count r) \<in>
        set (map (\<lambda>r. (spotify_id r,
                    count_list (map fst edges_df @ map snd edges_df) (spotify_id r))) (stage5 st))"
      unfolding m .
    then have "collab_count r = count_list (map fst edges_df @ map snd edges_df) (spotify_id r)"
      by auto
    also from n have "\<dots> = 0" by (simp add: count_list_0_iff del: count_list.simps)
    finally show "collab_count r = 0" .
  qed
qed

theorem collab_count_appearances_witness:
  "map (\<lambda>r. (spotify_id r, collab_count r))
       (stage6 (projr (the (pipeline top_genres [(''A'', ''B''), (''A'', ''B''), (''C'', ''A'')]
          [example_node ''A'' 90 [''pop''] (Text ''['us (1)']''),
           example_node ''D'' 80 [''rock''] (Text ''['gb (2)']'')]))))
     = [(''A'', 3), (''D'', 0)]"
proof -
  let ?e = "[(''A'', ''B''), (''A'', ''B''), (''C'', ''A'')]"
  let ?n = "[example_node ''A'' 90 [''pop''] (Text ''['us (1)']''),
           example_node ''D'' 80 [''rock''] (Text ''['gb (2)']'')]"
  have p: "pipeline top_genres ?e ?n = Some (Inr (projr (the (pipeline top_genres ?e ?n))))"
    by code_simp
  have v: "map (\<lambda>r. (spotify_id r,
                    count_list (map fst ?e @ map snd ?e) (spotify_id r)))
               (stage5 (projr (the (pipeline top_genres ?e ?n)))) = [(''A'', 3), (''D'', 0)]"
    by code_simp
  from collab_count_appearances [OF p] show ?thesis
    unfolding v by (rule conjunct1)
qed

section \<open>Properties of the Graph Engine\<close>

lemma set_neighbours:
  "set (neighbours es n) = {m. (n, m) \<in> set es \<or> (m, n) \<in> set es}"
  by (force simp: neighbours_def)

lemma map_of_add_nbr:
  "map_of (add_nbr u v g) n =
     (if n = u then map_option (\<lambda>ns. if v \<in> set ns then ns else ns @ [v]) (map_of g n)
      else map_of g n)"
  unfolding add_nbr_def by (induction g) auto

lemma map_of_add_node:
  "map_of (add_node u g) n = (if n = u \<and> map_of g u = None then Some [] else map_of g n)"
proof (cases "u \<in> set (map fst g)")
  case True
  then have "map_of g u \<noteq> None" by (simp add: map_of_eq_None_iff)
  with True show ?thesis by (simp add: add_node_def)
next
  case False
  then have "map_of g u = None" by (simp add: map_of_eq_None_iff)
  with False show ?thesis
    by (auto simp: add_node_def map_add_def split: option.splits)
qed

lemma set_enter [simp]: "set (enter v ns) = insert v (set ns)"
  by (auto simp: enter_def)

lemma distinct_enter [simp]: "distinct (enter v ns) = distinct ns"
  by (auto simp: enter_def)

lemma map_of_add_edge:
  "map_of (add_edge u v g) n =
     (if n = u \<and> n = v then Some (enter u (nbrs_or_empty g n))
      else if n = u then Some (enter v (nbrs_or_empty g n))
      else if n = v then Some (enter u (nbrs_or_empty g n))
      else map_of g n)"
proof -
  have e: "\<And>w ns. (if w \<in> set ns then ns else ns @ [w]) = enter w ns"
    by (simp add: enter_def)
  show ?thesis
  proof (cases "u = v")
    case True
    then show ?thesis
      by (cases "map_of g v")
         (simp_all add: add_edge_def map_of_add_nbr map_of_add_node nbrs_or_empty_def e,
          simp_all add: enter_def)
  next
    case False
    then have ne: "u \<noteq> v" "v \<noteq> u" by auto
    show ?thesis
    proof (cases "map_of g u")
      case None
      note nu = this
      show ?thesis
      proof (cases "map_of g v")
        case None
        with nu ne show ?thesis
          by (simp add: add_edge_def map_of_add_nbr map_of_add_node nbrs_or_empty_def e;
              simp add: enter_def)
      next
        case (Some b)
        with nu ne show ?thesis
          by (simp add: add_edge_def map_of_add_nbr map_of_add_node nbrs_or_empty_def e;
              simp add: enter_def)
      qed
    next
      case (Some a)
      note su = this
      show ?thesis
      proof (cases "map_of g v")
        case None
        with su ne show ?thesis
          by (simp add: add_edge_def map_of_add_nbr map_of_add_node nbrs_or_empty_def e;
              simp add: enter_def)
      next
        case (Some b)
        with su ne show ?thesis
          by (simp add: add_edge_def map_of_add_nbr map_of_add_node nbrs_or_empty_def e;
              simp add: enter_def)
      qed
    qed
  qed
qed

lemma adjacency_of_add_edge:
  assumes "adjacency_of g es"
  shows "adjacency_of (add_edge u v g) (es @ [(u, v)])"
proof -
  have none: "\<And>n. (map_of g n = None) = (n \<notin> fst ` set es \<union> snd ` set es)"
    and some: "\<And>n ns. map_of g n = Some ns \<Longrightarrow>
                 distinct ns \<and> set ns = {m. (n, m) \<in> set es \<or> (m, n) \<in> set es}"
    using assms unfolding adjacency_of_def by blast+
  have base_set: "set (nbrs_or_empty g n) = {m. (n, m) \<in> set es \<or> (m, n) \<in> set es}" for n
  proof (cases "map_of g n")
    case None
    with none [of n] have "{m. (n, m) \<in> set es \<or> (m, n) \<in> set es} = {}"
      by force
    with None show ?thesis by (simp add: nbrs_or_empty_def)
  next
    case (Some ms)
    with some [of n ms] show ?thesis by (simp add: nbrs_or_empty_def)
  qed
  have base_distinct: "distinct (nbrs_or_empty g n)" for n
    using some [of n] by (cases "map_of g n") (simp_all add: nbrs_or_empty_def)
  show ?thesis
    unfolding adjacency_of_def
  proof (intro allI conjI impI)
    fix n
    show "(map_of (add_edge u v g) n = None) =
          (n \<notin> fst ` set (es @ [(u, v)]) \<union> snd ` set (es @ [(u, v)]))"
      using none [of n] by (simp add: map_of_add_edge)
  next
    fix n ns
    assume a: "map_of (add_edge u v g) n = Some ns"
    show "distinct ns"
    proof (cases "n = u \<or> n = v")
      case True
      with a base_distinct [of n] show ?thesis
        by (auto simp: map_of_add_edge split: if_splits)
    next
      case False
      with a some [of n ns] show ?thesis by (simp add: map_of_add_edge)
    qed
  next
    fix n ns
    assume a: "map_of (add_edge u v g) n = Some ns"
    show "set ns = {m. (n, m) \<in> set (es @ [(u, v)]) \<or> (m, n) \<in> set (es @ [(u, v)])}"
    proof (cases "n = u \<or> n = v")
      case True
      have "ns = (if n = u \<and> n = v then enter u (nbrs_or_empty g n)
                  else if n = u then enter v (nbrs_or_empty g n)
                  else enter u (nbrs_or_empty g n))"
        using a True by (simp add: map_of_add_edge split: if_splits)
      then show ?thesis
        using True base_set [of n] by (auto split: if_splits)
    next
      case False
      with a some [of n ns] show ?thesis by (auto simp: map_of_add_edge)
    qed
  qed
qed

lemma adjacency_of_from_pandas_edgelist: "adjacency_of (from_pandas_edgelist es) es"
proof (induction es rule: rev_induct)
  case Nil
  show ?case by (simp add: adjacency_of_def from_pandas_edgelist_def)
next
  case (snoc e es)
  obtain u v where e: "e = (u, v)" by (cases e)
  have "from_pandas_edgelist (es @ [e]) = add_edge u v (from_pandas_edgelist es)"
    by (simp add: from_pandas_edgelist_def e)
  with adjacency_of_add_edge [OF snoc.IH, of u v] show ?case by (simp add: e)
qed

lemma map_of_degrees_eq:
  "map_of (degrees g) n = map_option (node_degree n) (map_of g n)"
  unfolding degrees_def by (induction g) auto

lemma length_neighbours:
  "length (neighbours es n) = card {m. (n, m) \<in> set es \<or> (m, n) \<in> set es}"
proof -
  have "distinct (neighbours es n)" by (simp add: neighbours_def)
  then have "length (neighbours es n) = card (set (neighbours es n))"
    by (simp add: distinct_card)
  then show ?thesis by (simp only: set_neighbours)
qed

lemma degree_formula:
  "map_of (degrees (from_pandas_edgelist es)) n =
     (if n \<in> fst ` set es \<union> snd ` set es
      then Some (card {m. (n, m) \<in> set es \<or> (m, n) \<in> set es} +
                 (if (n, n) \<in> set es then 1 else 0))
      else None)"
proof -
  let ?g = "from_pandas_edgelist es"
  have adj: "adjacency_of ?g es" by (rule adjacency_of_from_pandas_edgelist)
  show ?thesis
  proof (cases "map_of ?g n")
    case None
    with adj have "n \<notin> fst ` set es \<union> snd ` set es"
      unfolding adjacency_of_def by blast
    with None show ?thesis by (simp add: map_of_degrees_eq)
  next
    case (Some ns)
    with adj have d: "distinct ns"
      and s: "set ns = {m. (n, m) \<in> set es \<or> (m, n) \<in> set es}"
      unfolding adjacency_of_def by blast+
    from Some adj have i: "n \<in> fst ` set es \<union> snd ` set es"
      unfolding adjacency_of_def by (metis option.distinct(1))
    from d have "length ns = card (set ns)" by (simp add: distinct_card)
    then have l: "length ns = card {m. (n, m) \<in> set es \<or> (m, n) \<in> set es}"
      by (simp only: s)
    have m: "(n \<in> set ns) = ((n, n) \<in> set es)" unfolding s by simp
    from Some i show ?thesis
      by (simp add: map_of_degrees_eq node_degree_def l m)
  qed
qed

text \<open>
  A single edge row from a node to itself: the node has one distinct neighbour, itself, and
  the computed degree is 2, since networkx counts a self-loop twice.
\<close>

theorem self_loop_degree_counterexample:
  "map_of (snd (setup_network [(''A'', ''A'')])) ''A'' = Some 2
   \<and> length (neighbours [(''A'', ''A'')] ''A'') = 1"
  by code_simp

text \<open>
  Claim C8, amended. For every node of the graph built from the edge list, the computed
  degree is the number of distinct neighbouring nodes, plus one when the node is its own
  neighbour (a self-loop counts twice); it is the same for two edge lists that hold the same
  pairs, however often; and for the edges (A,B), (A,B), (A,C) the degree of A is 2.
\<close>

theorem degree_counts_neighbours:
  "map_of (snd (setup_network edges_df)) n =
     (if n \<in> fst ` set edges_df \<union> snd ` set edges_df
      then Some (length (neighbours edges_df n) + (if (n, n) \<in> set edges_df then 1 else 0))
      else None)
   \<and> (set edges_df' = set edges_df \<longrightarrow>
        map_of (snd (setup_network edges_df')) n = map_of (snd (setup_network edges_df)) n)
   \<and> map_of (snd (setup_network [(''A'', ''B''), (''A'', ''B''), (''A'', ''C'')])) ''A'' = Some 2"
proof (intro conjI impI)
  show "map_of (snd (setup_network edges_df)) n =
     (if n \<in> fst ` set edges_df \<union> snd ` set edges_df
      then Some (length (neighbours edges_df n) + (if (n, n) \<in> set edges_df then 1 else 0))
      else None)"
    by (simp only: setup_network_def Let_def snd_conv degree_formula length_neighbours)
next
  assume "set edges_df' = set edges_df"
  then show "map_of (snd (setup_network edges_df')) n = map_of (snd (setup_network edges_df)) n"
    by (simp only: setup_network_def Let_def snd_conv degree_formula)
next
  show "map_of (snd (setup_network [(''A'', ''B''), (''A'', ''B''), (''A'', ''C'')])) ''A'' = Some 2"
    by code_simp
qed

theorem degree_counts_neighbours_witness:
  "map_of (snd (setup_network [(''A'', ''B''), (''B'', ''A''), (''A'', ''A'')])) ''A'' = Some 3
   \<and> map_of (snd (setup_network [(''B'', ''A''), (''A'', ''B''), (''A'', ''B'')])) ''A'' =
       map_of (snd (setup_network [(''A'', ''B''), (''B'', ''A'')])) ''A''"
proof -
  let ?es = "[(''A'', ''B''), (''B'', ''A''), (''A'', ''A'')]"
  have v: "(if ''A'' \<in> fst ` set ?es \<union> snd ` set ?es
      then Some (length (neighbours ?es ''A'') + (if (''A'', ''A'') \<in> set ?es then 1 else 0))
      else None) = Some (3::nat)"
    by code_simp
  have a: "map_of (snd (setup_network ?es)) ''A'' = Some 3"
    using degree_counts_neighbours [of ?es "''A''" ?es] unfolding v by (rule conjunct1)
  have s: "set [(''B'', ''A''), (''A'', ''B''), (''A'', ''B'')] = set [(''A'', ''B''), (''B'', ''A'')]"
    by code_simp
  have b: "map_of (snd (setup_network [(''B'', ''A''), (''A'', ''B''), (''A'', ''B'')])) ''A'' =
       map_of (snd (setup_network [(''A'', ''B''), (''B'', ''A'')])) ''A''"
    using degree_counts_neighbours [of "[(''A'', ''B''), (''B'', ''A'')]" "''A''"
            "[(''B'', ''A''), (''A'', ''B''), (''A'', ''B'')]"] s
    by blast
  from a b show ?thesis by (rule conjI)
qed

section \<open>Properties of the quantile fence\<close>

lemma remove_outliers_iff:
  "r \<in> set (remove_outliers col df) \<longleftrightarrow>
     r \<in> set df \<and> lower_bound col df \<le> of_int (col r) \<and> of_int (col r) \<le> upper_bound col df"
  by (cases "df = []") (simp_all add: remove_outliers_def)

text \<open>
  Claim C5. For every column and every table, the removal with the fence from
  \<open>Q1 - 1.5 IQR\<close> to \<open>Q3 + 1.5 IQR\<close>, \<open>Q1\<close> and \<open>Q3\<close> the quantiles at 0.025 and
  0.975, keeps every row whose value lies strictly between the two bounds and removes every
  row whose value lies strictly outside them; in stage 5, where the fence of
  \<^verbatim>\<open>popularity\<close> is computed on the rows that the fence of \<^verbatim>\<open>followers\<close> has left, a
  row strictly inside both fences stays and a row strictly outside either is removed.
\<close>

theorem tukey_fence_removal:
  "(r \<in> set df \<and> lower_bound col df < of_int (col r) \<and> of_int (col r) < upper_bound col df
      \<longrightarrow> r \<in> set (remove_outliers col df))
   \<and> (of_int (col r) < lower_bound col df \<or> upper_bound col df < of_int (col r)
      \<longrightarrow> r \<notin> set (remove_outliers col df))
   \<and> lower_bound col df =
       quantile (25 / 1000) (column col df)
         - (3 / 2) * (quantile (975 / 1000) (column col df) - quantile (25 / 1000) (column col df))
   \<and> upper_bound col df =
       quantile (975 / 1000) (column col df)
         + (3 / 2) * (quantile (975 / 1000) (column col df) - quantile (25 / 1000) (column col df))
   \<and> (a \<in> set rows \<and>
        lower_bound followers rows < of_int (followers a) \<and>
        of_int (followers a) < upper_bound followers rows \<and>
        lower_bound popularity (remove_outliers followers rows) < of_int (popularity a) \<and>
        of_int (popularity a) < upper_bound popularity (remove_outliers followers rows)
      \<longrightarrow> a \<in> set (remove_all_outliers rows))
   \<and> (of_int (followers a) < lower_bound followers rows \<or>
        upper_bound followers rows < of_int (followers a) \<or>
        of_int (popularity a) < lower_bound popularity (remove_outliers followers rows) \<or>
        upper_bound popularity (remove_outliers followers rows) < of_int (popularity a)
      \<longrightarrow> a \<notin> set (remove_all_outliers rows))"
proof (intro conjI impI)
  assume "r \<in> set df \<and> lower_bound col df < of_int (col r) \<and> of_int (col r) < upper_bound col df"
  then show "r \<in> set (remove_outliers col df)"
    by (simp add: remove_outliers_iff)
next
  assume "of_int (col r) < lower_bound col df \<or> upper_bound col df < of_int (col r)"
  then show "r \<notin> set (remove_outliers col df)"
    by (auto simp: remove_outliers_iff)
next
  show "lower_bound col df =
       quantile (25 / 1000) (column col df)
         - (3 / 2) * (quantile (975 / 1000) (column col df) - quantile (25 / 1000) (column col df))"
    by (simp add: lower_bound_def Let_def)
next
  show "upper_bound col df =
       quantile (975 / 1000) (column col df)
         + (3 / 2) * (quantile (975 / 1000) (column col df) - quantile (25 / 1000) (column col df))"
    by (simp add: upper_bound_def Let_def)
next
  assume "a \<in> set rows \<and>
        lower_bound followers rows < of_int (followers a) \<and>
        of_int (followers a) < upper_bound followers rows \<and>
        lower_bound popularity (remove_outliers followers rows) < of_int (popularity a) \<and>
        of_int (popularity a) < upper_bound popularity (remove_outliers followers rows)"
  then show "a \<in> set (remove_all_outliers rows)"
    by (simp add: remove_all_outliers_def remove_outliers_iff)
next
  assume "of_int (followers a) < lower_bound followers rows \<or>
        upper_bound followers rows < of_int (followers a) \<or>
        of_int (popularity a) < lower_bound popularity (remove_outliers followers rows) \<or>
        upper_bound popularity (remove_outliers followers rows) < of_int (popularity a)"
  then show "a \<notin> set (remove_all_outliers rows)"
    by (auto simp: remove_all_outliers_def remove_outliers_iff)
qed

theorem tukey_fence_removal_witness:
  "20 \<in> set (remove_outliers (\<lambda>x. x) (map int [0..<42] @ [100000]))
   \<and> 100000 \<notin> set (remove_outliers (\<lambda>x. x) (map int [0..<42] @ [100000]))
   \<and> lower_bound (\<lambda>x. x) (map int [0..<42] @ [100000]) = - (294 / 5)
   \<and> upper_bound (\<lambda>x. x) (map int [0..<42] @ [100000]) = 504 / 5"
proof -
  let ?df = "map int [0..<42] @ [100000]"
  have q1: "quantile (25 / 1000) (column (\<lambda>x. x) ?df) = 21 / 20" by code_simp
  have q3: "quantile (975 / 1000) (column (\<lambda>x. x) ?df) = 819 / 20" by code_simp
  note t1 = tukey_fence_removal [of 20 ?df "\<lambda>x. x" undefined "[]"]
  note t2 = tukey_fence_removal [of 100000 ?df "\<lambda>x. x" undefined "[]"]
  from t1 have lb: "lower_bound (\<lambda>x. x) ?df = - (294 / 5)"
    unfolding q1 q3 by simp
  from t1 have ub: "upper_bound (\<lambda>x. x) ?df = 504 / 5"
    unfolding q1 q3 by simp
  have m: "20 \<in> set ?df" by code_simp
  from t1 m have a: "20 \<in> set (remove_outliers (\<lambda>x. x) ?df)"
    unfolding lb ub by simp
  from t2 have b: "100000 \<notin> set (remove_outliers (\<lambda>x. x) ?df)"
    unfolding lb ub by simp
  from a b lb ub show ?thesis by (intro conjI)
qed

section \<open>Properties of the pipeline as a whole\<close>

lemma pipeline_stages:
  assumes "pipeline tg edges_df nodes_df = Some (Inr st)"
  obtains expanded printed grouped where
    "collect_hits (stage2 st) = Some (expanded, printed)"
    "grouped_hits expanded = Inr grouped"
    "stage1 st = nlargest 100 popularity nodes_df"
    "stage2 st = apply_genre_mapping tg (stage1 st)"
    "stage3 st = dropna_hits (merge_hits (stage2 st) grouped)"
    "stage4 st = take 100 (sort_values_desc popularity (stage3 st))"
    "stage5 st = remove_all_outliers (stage4 st)"
    "stage6 st = merge_collabs (stage5 st) (artist_collabs edges_df)"
    "stage7 st = remove_collab_outliers (stage6 st)"
    "hits_frame expanded = Some expanded"
proof -
  let ?s2 = "apply_genre_mapping tg (nlargest 100 popularity nodes_df)"
  from assms obtain expanded printed where c: "collect_hits ?s2 = Some (expanded, printed)"
    by (cases "collect_hits ?s2") (auto simp: pipeline_def Let_def)
  from assms c obtain frame where "hits_frame expanded = Some frame"
    by (cases "hits_frame expanded") (auto simp: pipeline_def Let_def)
  with hits_frame_Some [OF this] have f: "hits_frame expanded = Some expanded" by simp
  from assms c f obtain grouped where g: "grouped_hits expanded = Inr grouped"
    by (cases "grouped_hits expanded") (auto simp: pipeline_def Let_def)
  from assms c f g have st: "st =
     \<lparr>stage1 = nlargest 100 popularity nodes_df, stage2 = ?s2,
      stage3 = dropna_hits (merge_hits ?s2 grouped),
      stage4 = take 100 (sort_values_desc popularity (dropna_hits (merge_hits ?s2 grouped))),
      stage5 = remove_all_outliers
                 (take 100 (sort_values_desc popularity (dropna_hits (merge_hits ?s2 grouped)))),
      stage6 = merge_collabs (remove_all_outliers
                 (take 100 (sort_values_desc popularity (dropna_hits (merge_hits ?s2 grouped)))))
                 (artist_collabs edges_df),
      stage7 = remove_collab_outliers (merge_collabs (remove_all_outliers
                 (take 100 (sort_values_desc popularity (dropna_hits (merge_hits ?s2 grouped)))))
                 (artist_collabs edges_df)),
      printed_log = printed\<rparr>"
    by (simp add: pipeline_def Let_def)
  show ?thesis
    by (rule that [OF _ g]) (simp_all add: st c f)
qed

lemma length_nlargest: "length (nlargest n col df) \<le> n"
  by (simp add: nlargest_def)

lemma length_apply_genre_mapping: "length (apply_genre_mapping tg df) \<le> length df"
proof -
  have "length (apply_genre_mapping tg df) =
        length (filter (\<lambda>(r, cg). length cg > 0)
                  (map (\<lambda>r. (r, map_to_top_genres tg (genres r))) df))"
    by (simp add: apply_genre_mapping_def)
  also have "\<dots> \<le> length (map (\<lambda>r. (r, map_to_top_genres tg (genres r))) df)"
    by (rule length_filter_le)
  finally show ?thesis by simp
qed

lemma length_dropna_hits: "length (dropna_hits merged) \<le> length merged"
  unfolding dropna_hits_def
  by (induction merged) (auto split: option.splits)

lemma length_merge_hits: "length (merge_hits df grouped) = length df"
  by (simp add: merge_hits_def Let_def)

lemma length_remove_outliers: "length (remove_outliers col df) \<le> length df"
  by (simp add: remove_outliers_def)

lemma length_remove_all_outliers: "length (remove_all_outliers df) \<le> length df"
  unfolding remove_all_outliers_def
  using length_remove_outliers [of popularity "remove_outliers followers df"]
        length_remove_outliers [of followers df]
  by (rule order_trans)

lemma length_merge_collabs: "length (merge_collabs df collabs) = length df"
  by (simp add: merge_collabs_def)

lemma length_remove_collab_outliers: "length (remove_collab_outliers df) \<le> length df"
  by (simp add: remove_collab_outliers_def Let_def)

lemma genre_row_extend [simp]:
  "cleaned_genres (node.extend r (genre_row.fields cg n)) = cg"
  "genre_count (node.extend r (genre_row.fields cg n)) = n"
  "spotify_id (node.extend r (genre_row.fields cg n)) = spotify_id r"
  by (simp_all add: node.extend_def genre_row.fields_def)

lemma hits_row_extend [simp]:
  "cleaned_genres (genre_row.extend r (hits_row.fields t n)) = cleaned_genres r"
  "genre_count (genre_row.extend r (hits_row.fields t n)) = genre_count r"
  "spotify_id (genre_row.extend r (hits_row.fields t n)) = spotify_id r"
  by (simp_all add: genre_row.extend_def hits_row.fields_def)

lemma final_row_extend_genres [simp]:
  "genre_count (hits_row.extend r (final_row.fields c)) = genre_count r"
  by (simp add: hits_row.extend_def final_row.fields_def)

lemma apply_genre_mapping_member:
  assumes "r \<in> set (apply_genre_mapping tg df)"
  shows "cleaned_genres r \<noteq> [] \<and> genre_count r = length (cleaned_genres r)"
  using assms by (auto simp: apply_genre_mapping_def)

lemma grouped_hits_keys:
  assumes "grouped_hits expanded = Inr grouped" "map_of grouped sid = Some agg"
  shows "\<exists>h \<in> set expanded. hit_spotify_id h = sid"
proof -
  from assms(1) have "map fst grouped = sort (remdups (map hit_spotify_id expanded))"
    by (auto simp: grouped_hits_def Let_def comp_def split: if_splits)
  moreover from assms(2) have "sid \<in> set (map fst grouped)"
    by (metis map_of_eq_None_iff option.distinct(1) set_map)
  ultimately show ?thesis by auto
qed

lemma dropna_hits_member:
  assumes "r \<in> set (dropna_hits (merge_hits df grouped))"
  shows "\<exists>r2 \<in> set df. \<exists>t t' n. map_of grouped (spotify_id r2) = Some (t, n) \<and>
           r = genre_row.extend r2 (hits_row.fields t' n)"
proof -
  let ?u = "list_ex (\<lambda>r. map_of grouped (spotify_id r) = None) df"
  from assms obtain r2 where r2: "r2 \<in> set df"
    and m: "r \<in> set (case (case map_of grouped (spotify_id r2) of
                               None \<Rightarrow> None
                             | Some (t, n) \<Rightarrow> Some (if ?u then float64_of_int t else t, n)) of
                        None \<Rightarrow> []
                      | Some (t, n) \<Rightarrow> [genre_row.extend r2 (hits_row.fields t n)])"
    by (auto simp: dropna_hits_def merge_hits_def Let_def)
  from m obtain t n where "map_of grouped (spotify_id r2) = Some (t, n)"
    and "r = genre_row.extend r2 (hits_row.fields (if ?u then float64_of_int t else t) n)"
    by (cases "map_of grouped (spotify_id r2)") auto
  with r2 show ?thesis by blast
qed

lemma remove_all_outliers_subset: "set (remove_all_outliers df) \<subseteq> set df"
  by (auto simp: remove_all_outliers_def remove_outliers_def split: if_splits)

lemma remove_collab_outliers_subset: "set (remove_collab_outliers df) \<subseteq> set df"
  by (auto simp: remove_collab_outliers_def Let_def split: if_splits)


lemma apply_genre_mapping_canonical:
  assumes "r \<in> set (apply_genre_mapping tg df)"
  shows "set (cleaned_genres r) \<subseteq> set (map fst tg)"
proof -
  from assms obtain r0 where
    "r = node.extend r0 (genre_row.fields (map_to_top_genres tg (genres r0))
                           (length (map_to_top_genres tg (genres r0))))"
    by (auto simp: apply_genre_mapping_def)
  then have "cleaned_genres r = map_to_top_genres tg (genres r0)"
    by simp
  moreover have "set (map_to_top_genres tg (genres r0)) \<subseteq> set (map fst tg)"
    unfolding set_map_to_top_genres by force
  ultimately show ?thesis by simp
qed

lemma merge_collabs_member:
  assumes "r \<in> set (merge_collabs df collabs)"
  shows "\<exists>r5 \<in> set df. \<exists>c. r = hits_row.extend r5 (final_row.fields c)"
  using assms by (auto simp: merge_collabs_def)

lemma stage7_member:
  assumes "pipeline tg edges_df nodes_df = Some (Inr st)"
    and "collect_hits (stage2 st) = Some (expanded, printed)"
    and "r \<in> set (stage7 st)"
  shows "cleaned_genres r \<noteq> [] \<and> 1 \<le> genre_count r \<and>
         set (cleaned_genres r) \<subseteq> set (map fst tg) \<and>
         (\<exists>h \<in> set expanded. hit_spotify_id h = spotify_id r)"
proof -
  from assms(1) obtain expanded' printed' grouped where
    c: "collect_hits (stage2 st) = Some (expanded', printed')" and
    g: "grouped_hits expanded' = Inr grouped" and
    s2: "stage2 st = apply_genre_mapping tg (stage1 st)" and
    s3: "stage3 st = dropna_hits (merge_hits (stage2 st) grouped)" and
    s4: "stage4 st = take 100 (sort_values_desc popularity (stage3 st))" and
    s5: "stage5 st = remove_all_outliers (stage4 st)" and
    s6: "stage6 st = merge_collabs (stage5 st) (artist_collabs edges_df)" and
    s7: "stage7 st = remove_collab_outliers (stage6 st)"
    by (rule pipeline_stages)
  from c assms(2) have ex: "expanded' = expanded" by simp
  from assms(3) have "r \<in> set (stage6 st)"
    unfolding s7 using remove_collab_outliers_subset by blast
  then obtain r5 c5 where r5: "r5 \<in> set (stage5 st)"
    and r: "r = hits_row.extend r5 (final_row.fields c5)"
    unfolding s6 using merge_collabs_member by blast
  from r5 have "r5 \<in> set (stage4 st)"
    unfolding s5 using remove_all_outliers_subset by blast
  then have "r5 \<in> set (sort_values_desc popularity (stage3 st))"
    unfolding s4 by (rule in_set_takeD)
  then have "r5 \<in> set (stage3 st)"
    by (simp add: sort_values_desc_def)
  then obtain r2 t t' n where r2: "r2 \<in> set (stage2 st)"
    and m: "map_of grouped (spotify_id r2) = Some (t, n)"
    and r5e: "r5 = genre_row.extend r2 (hits_row.fields t' n)"
    unfolding s3 using dropna_hits_member by blast
  from r2 have g2: "cleaned_genres r2 \<noteq> [] \<and> genre_count r2 = length (cleaned_genres r2)"
    and c2: "set (cleaned_genres r2) \<subseteq> set (map fst tg)"
    unfolding s2 by (rule apply_genre_mapping_member, rule apply_genre_mapping_canonical)
  from g2 have "1 \<le> genre_count r2" by (cases "cleaned_genres r2") simp_all
  moreover from grouped_hits_keys [OF g m] have "\<exists>h \<in> set expanded. hit_spotify_id h = spotify_id r2"
    unfolding ex .
  ultimately show ?thesis
    using g2 c2 unfolding r r5e by simp
qed

text \<open>
  Claim C7. Whenever \<^verbatim>\<open>prepare_cleaned_data\<close> returns, the table after the first stage
  has at most 100 rows, the table after each of the stages 2 to 7 has at most 100 rows and
  no more rows than the table before it, and every row of the final table has a non-empty
  list of canonical genres of the taxonomy and an identifier for which at least one chart
  hit was parsed and aggregated.
\<close>

theorem pipeline_row_counts:
  assumes "pipeline tg edges_df nodes_df = Some (Inr st)"
  shows "length (stage1 st) \<le> 100
       \<and> length (stage2 st) \<le> length (stage1 st)
       \<and> length (stage3 st) \<le> length (stage2 st)
       \<and> length (stage4 st) \<le> length (stage3 st)
       \<and> length (stage5 st) \<le> length (stage4 st)
       \<and> length (stage6 st) \<le> length (stage5 st)
       \<and> length (stage7 st) \<le> length (stage6 st)
       \<and> length (stage2 st) \<le> 100 \<and> length (stage3 st) \<le> 100
       \<and> length (stage4 st) \<le> 100 \<and> length (stage5 st) \<le> 100
       \<and> length (stage6 st) \<le> 100 \<and> length (stage7 st) \<le> 100
       \<and> (\<exists>expanded printed.
             collect_hits (stage2 st) = Some (expanded, printed) \<and>
             (\<forall>r \<in> set (stage7 st).
                cleaned_genres r \<noteq> [] \<and> 1 \<le> genre_count r \<and>
                set (cleaned_genres r) \<subseteq> set (map fst tg) \<and>
                (\<exists>h \<in> set expanded. hit_spotify_id h = spotify_id r)))"
proof -
  from assms obtain expanded printed grouped where
    c: "collect_hits (stage2 st) = Some (expanded, printed)" and
    s1: "stage1 st = nlargest 100 popularity nodes_df" and
    s2: "stage2 st = apply_genre_mapping tg (stage1 st)" and
    s3: "stage3 st = dropna_hits (merge_hits (stage2 st) grouped)" and
    s4: "stage4 st = take 100 (sort_values_desc popularity (stage3 st))" and
    s5: "stage5 st = remove_all_outliers (stage4 st)" and
    s6: "stage6 st = merge_collabs (stage5 st) (artist_collabs edges_df)" and
    s7: "stage7 st = remove_collab_outliers (stage6 st)"
    by (rule pipeline_stages)
  have l1: "length (stage1 st) \<le> 100"
    unfolding s1 by (rule length_nlargest)
  have l2: "length (stage2 st) \<le> length (stage1 st)"
    unfolding s2 by (rule length_apply_genre_mapping)
  have l3: "length (stage3 st) \<le> length (stage2 st)"
    unfolding s3 using length_dropna_hits [of "merge_hits (stage2 st) grouped"]
    by (simp add: length_merge_hits)
  have l4: "length (stage4 st) \<le> length (stage3 st)"
    unfolding s4 by (simp add: sort_values_desc_def)
  have l5: "length (stage5 st) \<le> length (stage4 st)"
    unfolding s5 by (rule length_remove_all_outliers)
  have l6: "length (stage6 st) \<le> length (stage5 st)"
    unfolding s6 by (simp add: length_merge_collabs)
  have l7: "length (stage7 st) \<le> length (stage6 st)"
    unfolding s7 by (rule length_remove_collab_outliers)
  have m: "\<forall>r \<in> set (stage7 st).
                cleaned_genres r \<noteq> [] \<and> 1 \<le> genre_count r \<and>
                set (cleaned_genres r) \<subseteq> set (map fst tg) \<and>
                (\<exists>h \<in> set expanded. hit_spotify_id h = spotify_id r)"
    using stage7_member [OF assms c] by blast
  from c m have e: "\<exists>expanded printed.
             collect_hits (stage2 st) = Some (expanded, printed) \<and>
             (\<forall>r \<in> set (stage7 st).
                cleaned_genres r \<noteq> [] \<and> 1 \<le> genre_count r \<and>
                set (cleaned_genres r) \<subseteq> set (map fst tg) \<and>
                (\<exists>h \<in> set expanded. hit_spotify_id h = spotify_id r))"
    by blast
  from l1 l2 l3 l4 l5 l6 l7 have
    "length (stage2 st) \<le> 100" "length (stage3 st) \<le> 100" "length (stage4 st) \<le> 100"
    "length (stage5 st) \<le> 100" "length (stage6 st) \<le> 100" "length (stage7 st) \<le> 100"
    by linarith+
  with l1 l2 l3 l4 l5 l6 l7 e show ?thesis by (intro conjI)
qed

theorem pipeline_row_counts_witness:
  "length (stage1 (projr (the (pipeline top_genres [(''A'', ''B''), (''B'', ''C'')]
      [example_node ''A'' 90 [''pop''] (Text ''['us (1)']''),
       example_node ''B'' 80 [''rock''] (Text ''['us (2)', 'gb (3)']''),
       example_node ''C'' 70 [''jazz''] (Text ''['us (x)']''),
       example_node ''D'' 60 [''polka''] (Text ''['us (4)']'')])))) \<le> 100
   \<and> length (stage7 (projr (the (pipeline top_genres [(''A'', ''B''), (''B'', ''C'')]
      [example_node ''A'' 90 [''pop''] (Text ''['us (1)']''),
       example_node ''B'' 80 [''rock''] (Text ''['us (2)', 'gb (3)']''),
       example_node ''C'' 70 [''jazz''] (Text ''['us (x)']''),
       example_node ''D'' 60 [''polka''] (Text ''['us (4)']'')]))))
      \<le> length (stage2 (projr (the (pipeline top_genres [(''A'', ''B''), (''B'', ''C'')]
      [example_node ''A'' 90 [''pop''] (Text ''['us (1)']''),
       example_node ''B'' 80 [''rock''] (Text ''['us (2)', 'gb (3)']''),
       example_node ''C'' 70 [''jazz''] (Text ''['us (x)']''),
       example_node ''D'' 60 [''polka''] (Text ''['us (4)']'')]))))
   \<and> map (\<lambda>r. (spotify_id r, cleaned_genres r))
        (stage7 (projr (the (pipeline top_genres [(''A'', ''B''), (''B'', ''C'')]
      [example_node ''A'' 90 [''pop''] (Text ''['us (1)']''),
       example_node ''B'' 80 [''rock''] (Text ''['us (2)', 'gb (3)']''),
       example_node ''C'' 70 [''jazz''] (Text ''['us (x)']''),
       example_node ''D'' 60 [''polka''] (Text ''['us (4)']'')]))))
       = [(''A'', [''pop'']), (''B'', [''rock''])]"
proof -
  let ?e = "[(''A'', ''B''), (''B'', ''C'')]"
  let ?n = "[example_node ''A'' 90 [''pop''] (Text ''['us (1)']''),
       example_node ''B'' 80 [''rock''] (Text ''['us (2)', 'gb (3)']''),
       example_node ''C'' 70 [''jazz''] (Text ''['us (x)']''),
       example_node ''D'' 60 [''polka''] (Text ''['us (4)']'')]"
  let ?st = "projr (the (pipeline top_genres ?e ?n))"
  have p: "pipeline top_genres ?e ?n = Some (Inr ?st)"
    by code_simp
  note t = pipeline_row_counts [OF p]
  from t have a: "length (stage1 ?st) \<le> 100" by (rule conjunct1)
  from t have b: "length (stage7 ?st) \<le> length (stage2 ?st)" by linarith
  have c: "map (\<lambda>r. (spotify_id r, cleaned_genres r)) (stage7 ?st)
       = [(''A'', [''pop'']), (''B'', [''rock''])]"
    by code_simp
  from a b c show ?thesis by (intro conjI)
qed

end
